theory Spec2Isabelle
  imports Complex_Main "HOL-Library.Sublist" "HOL-Library.Multiset"
begin

section \<open>Python values and the operations the pipeline applies to them\<close>

text \<open>
  The log pipeline reads JSON files and inspects them with Python's dynamic operators.
  A parsed JSON value is one of Python's \<open>None\<close>, \<open>bool\<close>, \<open>int\<close>, \<open>float\<close>, \<open>str\<close>,
  \<open>list\<close> and \<open>dict\<close>. A \<open>dict\<close> is kept as an association list in insertion order; the
  first binding of a key is the one looked up. A \<open>float\<close> is kept as the rational it
  denotes: the code only ever tests it for zero. Strings are lists of characters.
\<close>

datatype json =
    JNull
  | JBool bool
  | JInt int
  | JFloat rat
  | JStr string
  | JList "json list"
  | JDict "(string \<times> json) list"

datatype exn =
    TypeError
  | KeyError
  | AttributeError
  | JSONDecodeError
  | RecursionError
  | ValueError
  | OSError
  | UnicodeEncodeError
  | ElasticsearchException

definition rbind :: "exn + 'a \<Rightarrow> ('a \<Rightarrow> exn + 'b) \<Rightarrow> exn + 'b" where
  "rbind r f = (case r of Inl e \<Rightarrow> Inl e | Inr v \<Rightarrow> f v)"

text \<open>\<open>a and b\<close> on conditions that may raise: \<open>b\<close> is only reached when \<open>a\<close> is true.\<close>

definition py_and :: "exn + bool \<Rightarrow> exn + bool \<Rightarrow> exn + bool" where
  "py_and a b = (case a of Inl e \<Rightarrow> Inl e | Inr False \<Rightarrow> Inr False | Inr True \<Rightarrow> b)"

text \<open>\<open>k in x\<close> for a string \<open>k\<close>: key membership in a dict, substring test in a string,
  element membership in a list, \<open>TypeError\<close> on everything else.\<close>

fun py_in :: "string \<Rightarrow> json \<Rightarrow> exn + bool" where
  "py_in k (JDict kvs) = Inr (k \<in> set (map fst kvs))"
| "py_in k (JStr s) = Inr (sublist k s)"
| "py_in k (JList xs) = Inr (JStr k \<in> set xs)"
| "py_in k _ = Inl TypeError"

text \<open>\<open>x[k]\<close> for a string \<open>k\<close>: only a dict can be subscripted by a string.\<close>

fun py_getitem :: "json \<Rightarrow> string \<Rightarrow> exn + json" where
  "py_getitem (JDict kvs) k = (case map_of kvs k of None \<Rightarrow> Inl KeyError | Some v \<Rightarrow> Inr v)"
| "py_getitem _ k = Inl TypeError"

text \<open>\<open>x.get(k, d)\<close>: only a dict has the method.\<close>

fun py_get :: "json \<Rightarrow> string \<Rightarrow> json \<Rightarrow> exn + json" where
  "py_get (JDict kvs) k d = (case map_of kvs k of None \<Rightarrow> Inr d | Some v \<Rightarrow> Inr v)"
| "py_get _ k d = Inl AttributeError"

text \<open>\<open>for v in x\<close>: the elements of a list, the keys of a dict, the characters of a string.\<close>

fun py_iter :: "json \<Rightarrow> exn + json list" where
  "py_iter (JList xs) = Inr xs"
| "py_iter (JDict kvs) = Inr (map (\<lambda>kv. JStr (fst kv)) kvs)"
| "py_iter (JStr s) = Inr (map (\<lambda>c. JStr [c]) s)"
| "py_iter _ = Inl TypeError"

text \<open>Truthiness, as \<open>if x:\<close> tests it.\<close>

fun py_bool :: "json \<Rightarrow> bool" where
  "py_bool JNull = False"
| "py_bool (JBool b) = b"
| "py_bool (JInt i) = (i \<noteq> 0)"
| "py_bool (JFloat q) = (q \<noteq> 0)"
| "py_bool (JStr s) = (s \<noteq> [])"
| "py_bool (JList xs) = (xs \<noteq> [])"
| "py_bool (JDict kvs) = (kvs \<noteq> [])"

text \<open>\<open>s += v\<close> for a string accumulator \<open>s\<close>: only a string can be concatenated.\<close>

fun py_str_add :: "string \<Rightarrow> json \<Rightarrow> exn + string" where
  "py_str_add s (JStr t) = Inr (s @ t)"
| "py_str_add s _ = Inl TypeError"

fun is_dict :: "json \<Rightarrow> bool" where
  "is_dict (JDict kvs) = True"
| "is_dict _ = False"

section \<open>Strings and paths\<close>

text \<open>\<open>s.split(sep)\<close> for a one-character separator: never empty, one more piece than
  there are separators.\<close>

fun py_split :: "char \<Rightarrow> string \<Rightarrow> string list" where
  "py_split sep [] = [[]]"
| "py_split sep (c # cs) =
     (if c = sep then [] # py_split sep cs
      else (let ts = py_split sep cs in (c # hd ts) # tl ts))"

text \<open>\<open>sep.join(ts)\<close>, used to say what the pieces of a split are.\<close>

fun py_join :: "char \<Rightarrow> string list \<Rightarrow> string" where
  "py_join sep [] = []"
| "py_join sep [t] = t"
| "py_join sep (t # u # ts) = t @ sep # py_join sep (u # ts)"

text \<open>Characters that \<open>str.strip()\<close> removes: those for which \<open>str.isspace\<close> holds, among
  the code points a \<open>char\<close> can hold.\<close>

definition py_isspace :: "char \<Rightarrow> bool" where
  "py_isspace c = (of_char c \<in> {9, 10, 11, 12, 13, 28, 29, 30, 31, 32, 133, 160 :: nat})"

definition py_strip :: "string \<Rightarrow> string" where
  "py_strip s = rev (dropWhile py_isspace (rev (dropWhile py_isspace s)))"

text \<open>The paths are POSIX paths (\<open>os.path\<close> is \<open>posixpath\<close>).\<close>

definition basename :: "string \<Rightarrow> string" where
  "basename p = rev (takeWhile (\<lambda>c. c \<noteq> CHR ''/'') (rev p))"

definition dirname :: "string \<Rightarrow> string" where
  "dirname p =
     (let head = rev (dropWhile (\<lambda>c. c \<noteq> CHR ''/'') (rev p))
      in if head \<noteq> [] \<and> \<not> list_all (\<lambda>c. c = CHR ''/'') head
         then rev (dropWhile (\<lambda>c. c = CHR ''/'') (rev head))
         else head)"

definition path_join :: "string \<Rightarrow> string \<Rightarrow> string" where
  "path_join a b =
     (if prefix ''/'' b then b
      else if a = [] \<or> suffix ''/'' a then a @ b
      else a @ ''/'' @ b)"

section \<open>The filename decoder (utils.py)\<close>

definition extract_machine_id :: "string \<Rightarrow> string" where
  "extract_machine_id filename =
     (let parts = py_split (CHR ''_'') filename
      in if length parts > 1 then parts ! 1 else ''unknown'')"

definition extract_ip_address :: "string \<Rightarrow> string" where
  "extract_ip_address filename =
     (let parts = py_split (CHR ''_'') filename
      in if length parts > 2 then parts ! 2 else ''unknown'')"

definition extract_editor_version :: "string \<Rightarrow> string" where
  "extract_editor_version filename =
     (let parts = py_split (CHR ''_'') filename
      in if length parts > 3 then parts ! 3 else ''unknown'')"

section \<open>Metadata extraction (LogProcessor.extract_metadata)\<close>

text \<open>
  The metadata dict is built inside one \<open>try\<close>; whatever raises ends the construction and
  the dict is returned as it stands at that point. The three stages below are the
  statements of the body in order.
\<close>

type_synonym metadata = "string \<rightharpoonup> json"

definition metadata_proxy_time :: "json \<Rightarrow> metadata \<Rightarrow> exn + metadata" where
  "metadata_proxy_time log_data m =
     rbind (py_in ''proxy-time-consumed'' log_data) (\<lambda>present.
       if present
       then rbind (py_getitem log_data ''proxy-time-consumed'') (\<lambda>v.
              Inr (m(''proxy_time_consumed'' \<mapsto> v)))
       else Inr m)"

definition metadata_filename :: "string \<Rightarrow> metadata \<Rightarrow> metadata" where
  "metadata_filename filename m =
     m(''ip_address'' \<mapsto> JStr (extract_ip_address (basename filename)),
       ''machine_id'' \<mapsto> JStr (extract_machine_id (basename filename)),
       ''editor_version'' \<mapsto> JStr (extract_editor_version (basename filename)))"

definition metadata_model :: "json \<Rightarrow> metadata \<Rightarrow> exn + metadata" where
  "metadata_model log_data m =
     rbind (py_and (py_in ''request'' log_data)
             (py_and (rbind (py_getitem log_data ''request'') (py_in ''content''))
                     (rbind (rbind (py_getitem log_data ''request'') (\<lambda>r. py_getitem r ''content''))
                            (py_in ''model''))))
       (\<lambda>present.
          if present
          then rbind (rbind (rbind (py_getitem log_data ''request'') (\<lambda>r. py_getitem r ''content''))
                            (\<lambda>c. py_getitem c ''model''))
                 (\<lambda>v. Inr (m(''model'' \<mapsto> v)))
          else Inr m)"

definition extract_metadata :: "json \<Rightarrow> string \<Rightarrow> metadata" where
  "extract_metadata log_data filename =
     (case metadata_proxy_time log_data Map.empty of
        Inl e \<Rightarrow> Map.empty
      | Inr m1 \<Rightarrow>
          (let m2 = metadata_filename filename m1
           in case metadata_model log_data m2 of
                Inl e \<Rightarrow> m2
              | Inr m3 \<Rightarrow> m3))"

section \<open>Conversation extraction (LogProcessor.extract_conversation)\<close>

text \<open>
  A turn is the dict \<open>{'role': .., 'content': .., 'timestamp': ..}\<close>. Role and content are
  whatever JSON values the record carries; the timestamp is \<open>log_data.get('timestamp')\<close>,
  which is \<open>None\<close> when the key is missing.
\<close>

record turn =
  turn_role :: json
  turn_content :: json
  turn_timestamp :: json

text \<open>
  \<open>json.loads\<close> belongs to the Python library, so the parser is a parameter. It returns
  the parsed value or raises: \<open>json.JSONDecodeError\<close> for a string that is not JSON, and
  other exceptions (\<open>RecursionError\<close> for very deep nesting, \<open>ValueError\<close> for a very long
  number), which a handler for \<open>JSONDecodeError\<close> does not catch.
\<close>

type_synonym json_loads = "string \<Rightarrow> exn + json"

text \<open>\<open>try: x = json.loads(x)\<close> with \<open>except json.JSONDecodeError\<close> around it, for a string
  \<open>x\<close>: the parsed value, \<open>None\<close> when the handler ran, or the exception that passed it.\<close>

definition try_loads :: "json_loads \<Rightarrow> string \<Rightarrow> exn + json option" where
  "try_loads loads s =
     (case loads s of
        Inr v \<Rightarrow> Inr (Some v)
      | Inl e \<Rightarrow> if e = JSONDecodeError then Inr None else Inl e)"

text \<open>
  The body of the \<open>try\<close> block changes one local list, \<open>conversation\<close>, and may raise at
  any point; what was appended before the exception stays in the list. A stage of the body
  therefore returns the list together with the exception that ended it, if any.
\<close>

type_synonym outcome = "turn list \<times> exn option"

text \<open>One iteration of \<open>for msg in request_content['messages']\<close>: the turn to append,
  if the message has both keys.\<close>

definition message_turn :: "json \<Rightarrow> json \<Rightarrow> exn + turn option" where
  "message_turn log_data msg =
     rbind (py_and (py_in ''role'' msg) (py_in ''content'' msg)) (\<lambda>both.
       if both
       then rbind (py_getitem msg ''role'') (\<lambda>r.
            rbind (py_getitem msg ''content'') (\<lambda>c.
            rbind (py_get log_data ''timestamp'' JNull) (\<lambda>t.
              Inr (Some \<lparr>turn_role = r, turn_content = c, turn_timestamp = t\<rparr>))))
       else Inr None)"

fun append_messages :: "json \<Rightarrow> json list \<Rightarrow> turn list \<Rightarrow> outcome" where
  "append_messages log_data [] conversation = (conversation, None)"
| "append_messages log_data (msg # msgs) conversation =
     (case message_turn log_data msg of
        Inl e \<Rightarrow> (conversation, Some e)
      | Inr None \<Rightarrow> append_messages log_data msgs conversation
      | Inr (Some t) \<Rightarrow> append_messages log_data msgs (conversation @ [t]))"

text \<open>\<open>'src' in log_data and 'content' in log_data['src']\<close>, and \<open>log_data['src']['content']\<close>.\<close>

definition has_content :: "json \<Rightarrow> string \<Rightarrow> exn + bool" where
  "has_content log_data src =
     py_and (py_in src log_data) (rbind (py_getitem log_data src) (py_in ''content''))"

definition get_content :: "json \<Rightarrow> string \<Rightarrow> exn + json" where
  "get_content log_data src = rbind (py_getitem log_data src) (\<lambda>r. py_getitem r ''content'')"

text \<open>The request half of the body (source lines 62 to 80).\<close>

definition request_part :: "json_loads \<Rightarrow> json \<Rightarrow> turn list \<Rightarrow> outcome" where
  "request_part loads log_data conversation =
     (case has_content log_data ''request'' of
        Inl e \<Rightarrow> (conversation, Some e)
      | Inr False \<Rightarrow> (conversation, None)
      | Inr True \<Rightarrow>
          (case get_content log_data ''request'' of
             Inl e \<Rightarrow> (conversation, Some e)
           | Inr content0 \<Rightarrow>
               (case (case content0 of
                        JStr s \<Rightarrow>
                          (case try_loads loads s of
                             Inl e \<Rightarrow> Inl e
                           | Inr (Some v) \<Rightarrow> Inr v
                           | Inr None \<Rightarrow> Inr content0)
                      | _ \<Rightarrow> Inr content0) of
                  Inl e \<Rightarrow> (conversation, Some e)
                | Inr request_content \<Rightarrow>
                    (case py_and (Inr (is_dict request_content))
                            (py_in ''messages'' request_content) of
                       Inl e \<Rightarrow> (conversation, Some e)
                     | Inr False \<Rightarrow> (conversation, None)
                     | Inr True \<Rightarrow>
                         (case rbind (py_getitem request_content ''messages'') py_iter of
                            Inl e \<Rightarrow> (conversation, Some e)
                          | Inr msgs \<Rightarrow> append_messages log_data msgs conversation)))))"

text \<open>The streaming branch: the two nested loops over chunks and their choices, adding
  every truthy \<open>delta['content']\<close> to the accumulator \<open>assistant_message\<close>.\<close>

definition choice_delta :: "json \<Rightarrow> string \<Rightarrow> exn + string" where
  "choice_delta choice assistant_message =
     (case choice of
        JDict kvs \<Rightarrow>
          (case map_of kvs ''delta'' of
             Some (JDict dkvs) \<Rightarrow>
               (case map_of dkvs ''content'' of
                  Some c \<Rightarrow> if py_bool c then py_str_add assistant_message c
                            else Inr assistant_message
                | None \<Rightarrow> Inr assistant_message)
           | _ \<Rightarrow> Inr assistant_message)
      | _ \<Rightarrow> Inr assistant_message)"

fun choices_loop :: "json list \<Rightarrow> string \<Rightarrow> exn + string" where
  "choices_loop [] assistant_message = Inr assistant_message"
| "choices_loop (choice # choices) assistant_message =
     rbind (choice_delta choice assistant_message) (choices_loop choices)"

definition chunk_step :: "json \<Rightarrow> string \<Rightarrow> exn + string" where
  "chunk_step chunk assistant_message =
     (case chunk of
        JDict kvs \<Rightarrow>
          (case map_of kvs ''choices'' of
             Some cs \<Rightarrow>
               if py_bool cs
               then rbind (py_iter cs) (\<lambda>choices. choices_loop choices assistant_message)
               else Inr assistant_message
           | None \<Rightarrow> Inr assistant_message)
      | _ \<Rightarrow> Inr assistant_message)"

fun chunks_loop :: "json list \<Rightarrow> string \<Rightarrow> exn + string" where
  "chunks_loop [] assistant_message = Inr assistant_message"
| "chunks_loop (chunk # chunks) assistant_message =
     rbind (chunk_step chunk assistant_message) (chunks_loop chunks)"

definition assistant_turn :: "json \<Rightarrow> json \<Rightarrow> exn + turn" where
  "assistant_turn log_data c =
     rbind (py_get log_data ''timestamp'' JNull) (\<lambda>t.
       Inr \<lparr>turn_role = JStr ''assistant'', turn_content = c, turn_timestamp = t\<rparr>)"

definition append_turn :: "exn + turn \<Rightarrow> turn list \<Rightarrow> outcome" where
  "append_turn r conversation =
     (case r of Inl e \<Rightarrow> (conversation, Some e) | Inr t \<Rightarrow> (conversation @ [t], None))"

definition streaming_branch :: "json \<Rightarrow> json list \<Rightarrow> turn list \<Rightarrow> outcome" where
  "streaming_branch log_data chunks conversation =
     (case chunks_loop chunks [] of
        Inl e \<Rightarrow> (conversation, Some e)
      | Inr assistant_message \<Rightarrow>
          if assistant_message \<noteq> []
          then append_turn (assistant_turn log_data (JStr assistant_message)) conversation
          else (conversation, None))"

text \<open>The direct branch: a dict with \<open>choices\<close>, whose first choice has \<open>message.content\<close>.\<close>

definition direct_branch :: "json \<Rightarrow> (string \<times> json) list \<Rightarrow> turn list \<Rightarrow> outcome" where
  "direct_branch log_data kvs conversation =
     (case map_of kvs ''choices'' of
        Some (JList (choice # rest)) \<Rightarrow>
          (case choice of
             JDict ckvs \<Rightarrow>
               (case map_of ckvs ''message'' of
                  Some (JDict mkvs) \<Rightarrow>
                    (case map_of mkvs ''content'' of
                       Some c \<Rightarrow> append_turn (assistant_turn log_data c) conversation
                     | None \<Rightarrow> (conversation, None))
                | _ \<Rightarrow> (conversation, None))
           | _ \<Rightarrow> (conversation, None))
      | _ \<Rightarrow> (conversation, None))"

definition response_shape :: "json \<Rightarrow> json \<Rightarrow> turn list \<Rightarrow> outcome" where
  "response_shape log_data response_content conversation =
     (case response_content of
        JList chunks \<Rightarrow> streaming_branch log_data chunks conversation
      | JDict kvs \<Rightarrow> direct_branch log_data kvs conversation
      | _ \<Rightarrow> (conversation, None))"

text \<open>The response half of the body (source lines 83 to 129). A string for which the
  parser raises \<open>JSONDecodeError\<close> is appended as the assistant's reply and the content is
  set to \<open>None\<close>, which neither branch matches.\<close>

definition response_part :: "json_loads \<Rightarrow> json \<Rightarrow> turn list \<Rightarrow> outcome" where
  "response_part loads log_data conversation =
     (case has_content log_data ''response'' of
        Inl e \<Rightarrow> (conversation, Some e)
      | Inr False \<Rightarrow> (conversation, None)
      | Inr True \<Rightarrow>
          (case get_content log_data ''response'' of
             Inl e \<Rightarrow> (conversation, Some e)
           | Inr content0 \<Rightarrow>
               (case content0 of
                  JStr s \<Rightarrow>
                    (case try_loads loads s of
                       Inl e \<Rightarrow> (conversation, Some e)
                     | Inr (Some v) \<Rightarrow> response_shape log_data v conversation
                     | Inr None \<Rightarrow>
                         (case append_turn (assistant_turn log_data content0) conversation of
                            (conversation', Some e) \<Rightarrow> (conversation', Some e)
                          | (conversation', None) \<Rightarrow> response_shape log_data JNull conversation'))
                | _ \<Rightarrow> response_shape log_data content0 conversation)))"

text \<open>The whole \<open>try\<close> body, and the function: the \<open>except Exception\<close> handler logs and
  falls through to \<open>return conversation\<close>.\<close>

definition extract_conversation_body :: "json_loads \<Rightarrow> json \<Rightarrow> outcome" where
  "extract_conversation_body loads log_data =
     (case request_part loads log_data [] of
        (conversation, Some e) \<Rightarrow> (conversation, Some e)
      | (conversation, None) \<Rightarrow> response_part loads log_data conversation)"

definition extract_conversation :: "json_loads \<Rightarrow> json \<Rightarrow> turn list" where
  "extract_conversation loads log_data = fst (extract_conversation_body loads log_data)"

section \<open>The environment of a run\<close>

text \<open>
  What the pipeline reads from outside: the JSON parser, the clock, the file system under
  the source directories, and the answers of the Elasticsearch cluster. \<open>now_isoformat\<close>
  gives the n-th reading of the clock, so that two readings may differ. \<open>walk\<close> lists,
  for a directory, the pairs (root, files) that \<open>os.walk\<close> yields; \<open>getmtime\<close> is the
  result of \<open>os.path.getmtime\<close> on a path, a time or the exception it raises (a listed
  file may be a dangling link); \<open>read_text\<close> is the text of a file, or \<open>None\<close> when it
  cannot be opened or decoded. \<open>ledger_open\<close> is the exception, if any, that opening the
  ledger for appending raises, and \<open>ledger_write\<close> the exception, if any, that writing the
  line of a path raises (a path that the file's encoding cannot express). The source
  directories are \<open>config.LOG_SOURCE_DIRS\<close>, found by a glob when the configuration is
  loaded. An operation of the cluster returns its answer or the exception it raises.
\<close>

record file_info =
  fi_path :: string
  fi_user_id :: string

record document =
  doc_timestamp :: json
  doc_file_name :: string
  doc_user_id :: string
  doc_conversation :: "turn list"
  doc_metadata :: metadata

record env =
  loads :: json_loads
  now_isoformat :: "nat \<Rightarrow> string"
  LOG_SOURCE_DIRS :: "string list"
  path_exists :: "string \<Rightarrow> bool"
  walk :: "string \<Rightarrow> (string \<times> string list) list"
  getmtime :: "string \<Rightarrow> exn + real"
  read_text :: "string \<Rightarrow> string option"
  ledger_open :: "exn option"
  ledger_write :: "string \<Rightarrow> exn option"
  es_ping :: "exn + bool"
  es_indices_exists :: "string \<Rightarrow> exn + bool"
  es_indices_create :: "string \<Rightarrow> exn option"
  es_bulk :: "(string \<times> document) list \<Rightarrow> exn + (nat \<times> nat)"

definition MAX_FILES_PER_BATCH :: int where
  "MAX_FILES_PER_BATCH = 100"

definition ES_INDEX_PREFIX :: string where
  "ES_INDEX_PREFIX = ''copilot-chat-logs''"

definition get_user_id_from_path :: "string \<Rightarrow> string" where
  "get_user_id_from_path log_dir = basename (dirname log_dir)"

section \<open>The dedup ledger (utils.py)\<close>

text \<open>
  The ledger is the text file \<open>processed_files.log\<close>; \<open>None\<close> is the file not existing
  yet. The state of the world that a run changes is that file, the number of clock
  readings taken so far, and the history of the effects performed so far, in the order
  they happened. Reading the ledger is taken to succeed.
\<close>

datatype event =
    LedgerAppend string
  | Ping
  | IndexExists string
  | IndexCreate string
  | BulkWrite "(string \<times> document) list"

record world =
  ledger_file :: "string option"
  clock_reads :: nat
  history :: "event list"

text \<open>Reading in text mode turns \<open>\r\n\<close> and \<open>\r\<close> into \<open>\n\<close>; \<open>readlines\<close> then cuts
  after every \<open>\n\<close>, keeping it.\<close>

fun universal_newlines :: "string \<Rightarrow> string" where
  "universal_newlines [] = []"
| "universal_newlines [c] = (if c = CHR 0x0D then [CHR 0x0A] else [c])"
| "universal_newlines (c # d # cs) =
     (if c = CHR 0x0D
      then (if d = CHR 0x0A then CHR 0x0A # universal_newlines cs
            else CHR 0x0A # universal_newlines (d # cs))
      else c # universal_newlines (d # cs))"

fun readlines :: "string \<Rightarrow> string list" where
  "readlines [] = []"
| "readlines (c # cs) =
     (if c = CHR 0x0A then [c] # readlines cs
      else (case readlines cs of [] \<Rightarrow> [[c]] | l # ls \<Rightarrow> (c # l) # ls))"

definition get_processed_files :: "string option \<Rightarrow> string set" where
  "get_processed_files ledger =
     (case ledger of
        None \<Rightarrow> {}
      | Some text \<Rightarrow> set (map py_strip (readlines (universal_newlines text))))"

text \<open>\<open>mark_file_as_processed\<close>: \<open>open(.., 'a')\<close> creates the file if it is missing, then the
  line is written. Either step may raise; the exception, if any, is returned with the
  world as it then stands.\<close>

definition mark_file_as_processed :: "env \<Rightarrow> string \<Rightarrow> world \<Rightarrow> exn option \<times> world" where
  "mark_file_as_processed e file_path w =
     (case ledger_open e of
        Some ex \<Rightarrow> (Some ex, w)
      | None \<Rightarrow>
          (let old = (case ledger_file w of None \<Rightarrow> [] | Some text \<Rightarrow> text)
           in case ledger_write e file_path of
                Some ex \<Rightarrow> (Some ex, w\<lparr>ledger_file := Some old\<rparr>)
              | None \<Rightarrow>
                  (None, w\<lparr>ledger_file := Some (old @ file_path @ [CHR 0x0A]),
                            history := history w @ [LedgerAppend file_path]\<rparr>)))"

text \<open>\<open>load_json_file\<close> logs and raises again whatever reading or parsing raised.\<close>

definition load_json_file :: "env \<Rightarrow> string \<Rightarrow> exn + json" where
  "load_json_file e file_path =
     (case read_text e file_path of
        None \<Rightarrow> Inl OSError
      | Some text \<Rightarrow> loads e text)"

section \<open>Discovery and the extraction loop (LogProcessor)\<close>

record log_processor =
  source_dirs :: "string list"
  processed_files :: "string set"

text \<open>\<open>LogProcessor(source_dirs)\<close>: an absent or empty argument falls back to the
  configured directories; the ledger is read once, here.\<close>

definition LogProcessor :: "env \<Rightarrow> string list option \<Rightarrow> world \<Rightarrow> log_processor" where
  "LogProcessor e dirs w =
     \<lparr>source_dirs = (case dirs of
                       None \<Rightarrow> LOG_SOURCE_DIRS e
                     | Some ds \<Rightarrow> if ds \<noteq> [] then ds else LOG_SOURCE_DIRS e),
      processed_files = get_processed_files (ledger_file w)\<rparr>"

definition dir_unprocessed :: "env \<Rightarrow> string set \<Rightarrow> string \<Rightarrow> file_info list" where
  "dir_unprocessed e processed source_dir =
     (if \<not> path_exists e source_dir then []
      else concat (map (\<lambda>(root, files).
             map (\<lambda>file. \<lparr>fi_path = path_join root file,
                          fi_user_id = get_user_id_from_path source_dir\<rparr>)
               (filter (\<lambda>file. suffix ''.json'' file \<and> path_join root file \<notin> processed) files))
             (walk e source_dir)))"

definition all_unprocessed :: "env \<Rightarrow> log_processor \<Rightarrow> file_info list" where
  "all_unprocessed e p = concat (map (dir_unprocessed e (processed_files p)) (source_dirs p))"

text \<open>\<open>list.sort(key=..)\<close> computes the key of every element, in list order, before it
  sorts: the first key that raises ends the call. \<open>mtime\<close> is the key of a file once
  every key is known to exist.\<close>

fun mtime_error :: "env \<Rightarrow> file_info list \<Rightarrow> exn option" where
  "mtime_error e [] = None"
| "mtime_error e (f # fs) =
     (case getmtime e (fi_path f) of Inl ex \<Rightarrow> Some ex | Inr t \<Rightarrow> mtime_error e fs)"

definition mtime :: "env \<Rightarrow> file_info \<Rightarrow> real" where
  "mtime e f = (case getmtime e (fi_path f) of Inr t \<Rightarrow> t | Inl ex \<Rightarrow> 0)"

definition get_unprocessed_files ::
  "env \<Rightarrow> log_processor \<Rightarrow> int option \<Rightarrow> exn + file_info list" where
  "get_unprocessed_files e p max_files =
     (case mtime_error e (all_unprocessed e p) of
        Some ex \<Rightarrow> Inl ex
      | None \<Rightarrow>
          (let unprocessed_files = sort_key (mtime e) (all_unprocessed e p)
           in case max_files of
                None \<Rightarrow> Inr unprocessed_files
              | Some n \<Rightarrow> if n > 0 then Inr (take (nat n) unprocessed_files)
                          else Inr unprocessed_files))"

text \<open>\<open>process_file\<close>: the document, or \<open>None\<close> when loading raised or the loaded value
  has no \<open>get\<close> method (it is not a JSON object). The default of the timestamp is
  evaluated, and the clock read, whenever the method is found.\<close>

definition process_file :: "env \<Rightarrow> file_info \<Rightarrow> world \<Rightarrow> document option \<times> world" where
  "process_file e fi w =
     (case load_json_file e (fi_path fi) of
        Inl ex \<Rightarrow> (None, w)
      | Inr log_data \<Rightarrow>
          if \<not> is_dict log_data then (None, w)
          else (let now = now_isoformat e (clock_reads w);
                    w1 = w\<lparr>clock_reads := Suc (clock_reads w)\<rparr>
                in case py_get log_data ''timestamp'' (JStr now) of
                     Inl ex \<Rightarrow> (None, w1)
                   | Inr ts \<Rightarrow>
                       (Some \<lparr>doc_timestamp = ts,
                              doc_file_name = basename (fi_path fi),
                              doc_user_id = fi_user_id fi,
                              doc_conversation = extract_conversation (loads e) log_data,
                              doc_metadata = extract_metadata log_data (basename (fi_path fi))\<rparr>,
                        w1)))"

text \<open>The loop of \<open>process_files\<close>: a file that gave a document is marked at once, inside
  the loop, after its document has joined the list. The loop's own handler logs an
  exception of the marking and goes on with the next file.\<close>

fun process_loop :: "env \<Rightarrow> file_info list \<Rightarrow> document list \<Rightarrow> world \<Rightarrow> document list \<times> world" where
  "process_loop e [] documents w = (documents, w)"
| "process_loop e (fi # rest) documents w =
     (case process_file e fi w of
        (Some d, w1) \<Rightarrow>
          (case mark_file_as_processed e (fi_path fi) w1 of
             (raised, w2) \<Rightarrow> process_loop e rest (documents @ [d]) w2)
      | (None, w1) \<Rightarrow> process_loop e rest documents w1)"

definition process_files ::
  "env \<Rightarrow> log_processor \<Rightarrow> int option \<Rightarrow> world \<Rightarrow> exn + (document list \<times> world)" where
  "process_files e p max_files w =
     (case get_unprocessed_files e p max_files of
        Inl ex \<Rightarrow> Inl ex
      | Inr files_to_process \<Rightarrow>
          if files_to_process = [] then Inr ([], w)
          else Inr (process_loop e files_to_process [] w))"

section \<open>The sink (ESClient) and one run (main.process_logs)\<close>

definition get_index_name :: string where
  "get_index_name = ES_INDEX_PREFIX"

text \<open>The index that \<open>search_by_user\<close> passes to the search call.\<close>

definition search_index :: string where
  "search_index = ES_INDEX_PREFIX @ ''-*''"

text \<open>An operation of the client returns its value, or the exception it lets through
  (only \<open>ElasticsearchException\<close> is caught inside the client). \<open>ESClient()\<close> connects and
  pings the cluster; the answer of the ping is only logged. \<open>es_ping\<close> is the outcome of
  that connection attempt, and the event \<open>Ping\<close> the attempt itself.\<close>

definition ESClient :: "env \<Rightarrow> world \<Rightarrow> exn option \<times> world" where
  "ESClient e w =
     (let w1 = w\<lparr>history := history w @ [Ping]\<rparr>
      in case es_ping e of
           Inl ex \<Rightarrow> (if ex = ElasticsearchException then None else Some ex, w1)
         | Inr answer \<Rightarrow> (None, w1))"

definition create_index_if_not_exists :: "env \<Rightarrow> string \<Rightarrow> world \<Rightarrow> (exn + bool) \<times> world" where
  "create_index_if_not_exists e index_name w =
     (let w1 = w\<lparr>history := history w @ [IndexExists index_name]\<rparr>
      in case es_indices_exists e index_name of
           Inl ex \<Rightarrow> (if ex = ElasticsearchException then Inr False else Inl ex, w1)
         | Inr True \<Rightarrow> (Inr True, w1)
         | Inr False \<Rightarrow>
             (let w2 = w1\<lparr>history := history w1 @ [IndexCreate index_name]\<rparr>
              in case es_indices_create e index_name of
                   None \<Rightarrow> (Inr True, w2)
                 | Some ex \<Rightarrow> (if ex = ElasticsearchException then Inr False else Inl ex, w2)))"

text \<open>\<open>bulk_index\<close>: \<open>get_index_name()\<close> reads the clock and drops the reading.\<close>

definition bulk_index :: "env \<Rightarrow> document list \<Rightarrow> world \<Rightarrow> (exn + nat) \<times> world" where
  "bulk_index e documents w =
     (if documents = [] then (Inr 0, w)
      else case create_index_if_not_exists e get_index_name
                  (w\<lparr>clock_reads := Suc (clock_reads w)\<rparr>) of
             (Inl ex, w1) \<Rightarrow> (Inl ex, w1)
           | (Inr False, w1) \<Rightarrow> (Inr 0, w1)
           | (Inr True, w1) \<Rightarrow>
               (let actions = map (\<lambda>doc. (get_index_name, doc)) documents;
                    w2 = w1\<lparr>history := history w1 @ [BulkWrite actions]\<rparr>
                in case es_bulk e actions of
                     Inl ex \<Rightarrow> (if ex = ElasticsearchException then Inr 0 else Inl ex, w2)
                   | Inr (success, failed) \<Rightarrow> (Inr success, w2)))"

text \<open>One run: the processor, the client, the files, the bulk write. Every exception that
  reaches \<open>process_logs\<close> is logged and dropped, so the run always ends; what it leaves
  behind is the world.\<close>

definition process_logs :: "env \<Rightarrow> world \<Rightarrow> world" where
  "process_logs e w =
     (let processor = LogProcessor e None w
      in case ESClient e w of
           (Some ex, w0) \<Rightarrow> w0
         | (None, w0) \<Rightarrow>
             (case process_files e processor (Some MAX_FILES_PER_BATCH) w0 of
                Inl ex \<Rightarrow> w0
              | Inr (documents, w1) \<Rightarrow>
                  if documents \<noteq> [] then snd (bulk_index e documents w1) else w1))"

section \<open>Notions of the specification\<close>

text \<open>
  The definitions of this section are not translations of source functions: they give the
  words of the specification a meaning, so that the code can be compared with them.
\<close>

text \<open>The record's top-level timestamp (\<open>None\<close> when the record has none).\<close>

definition record_timestamp :: "json \<Rightarrow> json" where
  "record_timestamp log_data =
     (case py_get log_data ''timestamp'' JNull of Inr t \<Rightarrow> t | Inl e \<Rightarrow> JNull)"

text \<open>``The (parsed or original) content'': a string content that parses stands for the
  parsed value, every other content for itself.\<close>

definition parsed_or_original :: "json_loads \<Rightarrow> json \<Rightarrow> json" where
  "parsed_or_original parse c =
     (case c of JStr s \<Rightarrow> (case parse s of Inr v \<Rightarrow> v | Inl ex \<Rightarrow> c) | _ \<Rightarrow> c)"

text \<open>The parser returns on a content, or raises \<open>JSONDecodeError\<close>: it raises nothing
  that passes the handler.\<close>

definition parse_caught :: "json_loads \<Rightarrow> json \<Rightarrow> bool" where
  "parse_caught parse c =
     (case c of
        JStr s \<Rightarrow> (case parse s of Inr v \<Rightarrow> True | Inl ex \<Rightarrow> ex = JSONDecodeError)
      | _ \<Rightarrow> True)"

text \<open>The mismatches of \<open>request.content\<close> that the code tests for before it reads the
  messages: no \<open>request\<close> or \<open>content\<close> key, a string for which the parser raises
  \<open>JSONDecodeError\<close>, a content that (parsed or original) is not an object, or an object
  without a \<open>messages\<close> key.\<close>

definition request_skipped :: "json_loads \<Rightarrow> json \<Rightarrow> bool" where
  "request_skipped parse log_data =
     (has_content log_data ''request'' = Inr False \<or>
      (case get_content log_data ''request'' of
         Inr c \<Rightarrow> parse_caught parse c \<and>
                  (\<not> is_dict (parsed_or_original parse c)
                   \<or> py_in ''messages'' (parsed_or_original parse c) = Inr False)
       | Inl e \<Rightarrow> False))"

text \<open>The text of a list of streaming chunks: for each chunk that has a \<open>choices\<close> list,
  for each choice with a \<open>delta.content\<close> string, that string, in list order.\<close>

definition choice_text :: "json \<Rightarrow> string" where
  "choice_text choice =
     (case choice of
        JDict kvs \<Rightarrow>
          (case map_of kvs ''delta'' of
             Some (JDict dkvs) \<Rightarrow> (case map_of dkvs ''content'' of Some (JStr s) \<Rightarrow> s | _ \<Rightarrow> [])
           | _ \<Rightarrow> [])
      | _ \<Rightarrow> [])"

definition chunk_text :: "json \<Rightarrow> string" where
  "chunk_text chunk =
     (case chunk of
        JDict kvs \<Rightarrow>
          (case map_of kvs ''choices'' of
             Some (JList choices) \<Rightarrow> concat (map choice_text choices)
           | _ \<Rightarrow> [])
      | _ \<Rightarrow> [])"

definition stream_text :: "json list \<Rightarrow> string" where
  "stream_text chunks = concat (map chunk_text chunks)"

fun is_str :: "json \<Rightarrow> bool" where
  "is_str (JStr s) = True"
| "is_str _ = False"

text \<open>Chunks as the streaming format has them: a \<open>delta.content\<close> that is present and
  not empty is a string, and a \<open>choices\<close> value that is present and not empty is a list.\<close>

definition choice_typed :: "json \<Rightarrow> bool" where
  "choice_typed choice =
     (case choice of
        JDict kvs \<Rightarrow>
          (case map_of kvs ''delta'' of
             Some (JDict dkvs) \<Rightarrow>
               (case map_of dkvs ''content'' of Some c \<Rightarrow> is_str c \<or> \<not> py_bool c | None \<Rightarrow> True)
           | _ \<Rightarrow> True)
      | _ \<Rightarrow> True)"

definition chunk_typed :: "json \<Rightarrow> bool" where
  "chunk_typed chunk =
     (case chunk of
        JDict kvs \<Rightarrow>
          (case map_of kvs ''choices'' of
             Some (JList choices) \<Rightarrow> list_all choice_typed choices
           | Some cs \<Rightarrow> \<not> py_bool cs
           | None \<Rightarrow> True)
      | _ \<Rightarrow> True)"

text \<open>A ledger file as the pipeline itself writes it: empty, or ending with a newline.\<close>

definition ledger_wellformed :: "string option \<Rightarrow> bool" where
  "ledger_wellformed ledger =
     (case ledger of None \<Rightarrow> True | Some text \<Rightarrow> text = [] \<or> last text = CHR 0x0A)"


text \<open>The append of a path succeeds: neither opening the ledger nor writing the line
  raises.\<close>

definition append_ok :: "env \<Rightarrow> string \<Rightarrow> bool" where
  "append_ok e p = (ledger_open e = None \<and> ledger_write e p = None)"

text \<open>The ledger file after the append of a path was attempted, and after the appends of
  several paths were attempted in turn: a failed open leaves the file as it is, a failed
  write leaves its text as it is.\<close>

definition ledger_text :: "string option \<Rightarrow> string" where
  "ledger_text ledger = (case ledger of None \<Rightarrow> [] | Some text \<Rightarrow> text)"

definition ledger_after_append :: "env \<Rightarrow> string \<Rightarrow> string option \<Rightarrow> string option" where
  "ledger_after_append e p ledger =
     (if ledger_open e \<noteq> None then ledger
      else if ledger_write e p \<noteq> None then Some (ledger_text ledger)
      else Some (ledger_text ledger @ p @ [CHR 0x0A]))"

definition ledger_after :: "env \<Rightarrow> string list \<Rightarrow> string option \<Rightarrow> string option" where
  "ledger_after e paths ledger = foldl (\<lambda>l p. ledger_after_append e p l) ledger paths"

text \<open>A \<open>.json\<close> file under the source directories, ledgered or not: some existing source
  directory lists it under some root; and all of them, in the order discovery walks
  them.\<close>

definition json_file_under :: "env \<Rightarrow> string list \<Rightarrow> file_info \<Rightarrow> bool" where
  "json_file_under e dirs f =
     (\<exists>d\<in>set dirs. path_exists e d \<and>
        (\<exists>(root, files)\<in>set (walk e d). \<exists>file\<in>set files.
           suffix ''.json'' file \<and>
           f = \<lparr>fi_path = path_join root file, fi_user_id = get_user_id_from_path d\<rparr>))"

definition json_files :: "env \<Rightarrow> string list \<Rightarrow> file_info list" where
  "json_files e dirs = all_unprocessed e \<lparr>source_dirs = dirs, processed_files = {}\<rparr>"

text \<open>The modification time of every file of a list can be read.\<close>

definition mtimes_known :: "env \<Rightarrow> file_info list \<Rightarrow> bool" where
  "mtimes_known e files = list_all (\<lambda>f. \<not> isl (getmtime e (fi_path f))) files"

text \<open>The files that discovery selected: none when it raised.\<close>

definition selected_files :: "exn + file_info list \<Rightarrow> file_info list" where
  "selected_files r = (case r of Inl ex \<Rightarrow> [] | Inr files \<Rightarrow> files)"

text \<open>The task of a file produces a document: the file loads and holds a JSON object.\<close>

definition produces :: "env \<Rightarrow> file_info \<Rightarrow> bool" where
  "produces e f =
     (case load_json_file e (fi_path f) of Inr log_data \<Rightarrow> is_dict log_data | Inl ex \<Rightarrow> False)"

definition documented :: "env \<Rightarrow> file_info list \<Rightarrow> file_info list" where
  "documented e files = filter (produces e) files"

text \<open>The client could be built: the ping raised nothing that passes its handler.\<close>

definition client_built :: "env \<Rightarrow> bool" where
  "client_built e = (case es_ping e of Inl ex \<Rightarrow> ex = ElasticsearchException | Inr answer \<Rightarrow> True)"

text \<open>The files one run discovers (none when the client could not be built or discovery
  raised), those of them whose task produces a document, the documents the run collects,
  and several runs in sequence, each in its own environment.\<close>

definition run_selected :: "env \<Rightarrow> world \<Rightarrow> file_info list" where
  "run_selected e w =
     (if client_built e
      then selected_files (get_unprocessed_files e (LogProcessor e None w) (Some MAX_FILES_PER_BATCH))
      else [])"

definition run_documented :: "env \<Rightarrow> world \<Rightarrow> file_info list" where
  "run_documented e w = documented e (run_selected e w)"

definition run_documents :: "env \<Rightarrow> world \<Rightarrow> document list" where
  "run_documents e w = fst (process_loop e (run_selected e w) [] w)"

definition run_many :: "env list \<Rightarrow> world \<Rightarrow> world" where
  "run_many es w = foldl (\<lambda>w e. process_logs e w) w es"

text \<open>The index is there for the bulk write: it exists, or it was created.\<close>

definition index_ensured :: "env \<Rightarrow> bool" where
  "index_ensured e =
     (case es_indices_exists e get_index_name of
        Inr True \<Rightarrow> True
      | Inr False \<Rightarrow> es_indices_create e get_index_name = None
      | Inl ex \<Rightarrow> False)"


fun sink_event :: "event \<Rightarrow> bool" where
  "sink_event (LedgerAppend p) = False"
| "sink_event ev = True"

text \<open>An index expression of the search call matches an index name when the name is the
  expression with every \<open>*\<close> replaced by some sequence of characters.\<close>

fun wildcard_match :: "string \<Rightarrow> string \<Rightarrow> bool" where
  "wildcard_match [] s = (s = [])"
| "wildcard_match (p # ps) [] = (p = CHR ''*'' \<and> wildcard_match ps [])"
| "wildcard_match (p # ps) (c # cs) =
     (if p = CHR ''*'' then wildcard_match ps (c # cs) \<or> wildcard_match (p # ps) cs
      else p = c \<and> wildcard_match ps cs)"

section \<open>Example records and an example environment\<close>

text \<open>A parser for the examples whose strings are not JSON.\<close>

definition no_json :: json_loads where
  "no_json s = Inl JSONDecodeError"

text \<open>A string of 100000 opening brackets, on which the parser exceeds the recursion
  limit; every other string of the examples that use this parser is not JSON.\<close>

definition deep_text :: string where
  "deep_text = replicate 100000 (CHR ''['')"

definition deep_json :: json_loads where
  "deep_json s = (if s = deep_text then Inl RecursionError else Inl JSONDecodeError)"

definition deep_response_record :: json where
  "deep_response_record = JDict [(''response'', JDict [(''content'', JStr deep_text)])]"

definition hello_chunks :: "json list" where
  "hello_chunks =
     [JDict [(''choices'', JList [JDict [(''delta'', JDict [(''content'', JStr ''Hel'')])]])],
      JDict [(''choices'', JList [JDict [(''delta'', JDict [(''content'', JStr ''lo'')])]])]]"

definition streamed_record :: json where
  "streamed_record =
     JDict [(''timestamp'', JStr ''2025-03-26T06:16:09''),
            (''response'', JDict [(''content'', JList hello_chunks)])]"

definition streamed_record_null_request :: json where
  "streamed_record_null_request =
     JDict [(''request'', JNull), (''response'', JDict [(''content'', JList hello_chunks)])]"

definition streamed_record_number :: json where
  "streamed_record_number =
     JDict [(''response'', JDict [(''content'', JList
       [JDict [(''choices'', JList [JDict [(''delta'', JDict [(''content'', JStr ''Hel'')])]])],
        JDict [(''choices'', JList [JDict [(''delta'', JDict [(''content'', JInt 5)])]])]])])]"

definition plain_record :: json where
  "plain_record =
     JDict [(''timestamp'', JStr ''2025-03-26T06:16:09''),
            (''request'', JDict [(''content'', JDict [(''messages'',
               JList [JDict [(''role'', JStr ''user''), (''content'', JStr ''Hi'')]])])]),
            (''response'', JDict [(''content'', JStr ''Hello'')])]"

definition plain_record_null_messages :: json where
  "plain_record_null_messages =
     JDict [(''timestamp'', JStr ''2025-03-26T06:16:09''),
            (''request'', JDict [(''content'', JDict [(''messages'', JNull)])]),
            (''response'', JDict [(''content'', JStr ''Hello'')])]"

definition null_request_record :: json where
  "null_request_record =
     JDict [(''request'', JNull), (''response'', JDict [(''content'', JStr ''Hello'')])]"

definition garbled_request_record :: json where
  "garbled_request_record =
     JDict [(''request'', JDict [(''content'', JStr ''not json'')]),
            (''response'', JDict [(''content'', JStr ''Hello'')])]"

text \<open>
  One user directory with two log files and a text file. \<open>a_m1.json\<close> holds the empty
  object, \<open>b_m2.json\<close> is older and holds text that is not JSON. The clock moves between
  its first and its later readings. The ledger can be written, the cluster answers the
  ping, the index exists, and the cluster rejects every bulk request.
\<close>

definition demo_dir :: string where
  "demo_dir = ''/logs/amy/chat-panel''"

definition demo_good :: string where
  "demo_good = ''/logs/amy/chat-panel/a_m1.json''"

definition demo_bad :: string where
  "demo_bad = ''/logs/amy/chat-panel/b_m2.json''"

definition demo_loads :: json_loads where
  "demo_loads s = (if s = ''{}'' then Inr (JDict []) else Inl JSONDecodeError)"

definition demo_env :: env where
  "demo_env =
     \<lparr>loads = demo_loads,
      now_isoformat = (\<lambda>n. if n = 0 then ''2025-03-26T07:00:00'' else ''2025-03-26T07:50:00''),
      LOG_SOURCE_DIRS = [demo_dir],
      path_exists = (\<lambda>d. d = demo_dir),
      walk = (\<lambda>d. if d = demo_dir then [(demo_dir, [''a_m1.json'', ''b_m2.json'', ''notes.txt''])]
                  else []),
      getmtime = (\<lambda>p. if p = demo_good then Inr 2 else Inr 1),
      read_text = (\<lambda>p. if p = demo_good then Some ''{}''
                       else if p = demo_bad then Some ''garbled'' else None),
      ledger_open = None,
      ledger_write = (\<lambda>p. None),
      es_ping = Inr True,
      es_indices_exists = (\<lambda>i. Inr True),
      es_indices_create = (\<lambda>i. None),
      es_bulk = (\<lambda>actions. Inl ElasticsearchException)\<rparr>"

text \<open>The world before the first run, and the documents of \<open>a_m1.json\<close> at the first and
  at a later reading of the clock.\<close>

definition empty_world :: world where
  "empty_world = \<lparr>ledger_file = None, clock_reads = 0, history = []\<rparr>"

definition demo_document :: document where
  "demo_document =
     \<lparr>doc_timestamp = JStr ''2025-03-26T07:00:00'',
      doc_file_name = ''a_m1.json'',
      doc_user_id = ''amy'',
      doc_conversation = [],
      doc_metadata = extract_metadata (JDict []) ''a_m1.json''\<rparr>"

definition demo_document_later :: document where
  "demo_document_later = demo_document\<lparr>doc_timestamp := JStr ''2025-03-26T07:50:00''\<rparr>"


definition dangling_env :: env where
  "dangling_env = demo_env\<lparr>getmtime := (\<lambda>p. if p = demo_bad then Inl OSError else Inr 1)\<rparr>"

text \<open>A directory with 150 log files, listed from the most recent to the oldest: a file
  is the older the longer its name.\<close>

definition batch_file :: "nat \<Rightarrow> string" where
  "batch_file n = ''f'' @ replicate n (CHR ''x'') @ ''.json''"

definition batch_info :: "nat \<Rightarrow> file_info" where
  "batch_info n = \<lparr>fi_path = ''/logs/amy/chat-panel/'' @ batch_file n, fi_user_id = ''amy''\<rparr>"

definition batch_env :: env where
  "batch_env =
     \<lparr>loads = no_json,
      now_isoformat = (\<lambda>n. ''2025-03-26T07:00:00''),
      LOG_SOURCE_DIRS = [demo_dir],
      path_exists = (\<lambda>d. True),
      walk = (\<lambda>d. [(d, map batch_file [0..<150])]),
      getmtime = (\<lambda>p. Inr (- real (length p))),
      read_text = (\<lambda>p. None),
      ledger_open = None,
      ledger_write = (\<lambda>p. None),
      es_ping = Inr True,
      es_indices_exists = (\<lambda>i. Inr True),
      es_indices_create = (\<lambda>i. None),
      es_bulk = (\<lambda>actions. Inr (length actions, 0))\<rparr>"






section \<open>Properties of the filename decoder and of the metadata\<close>

lemma py_split_nonempty: "py_split sep s \<noteq> []"
  by (induction s) (auto simp: Let_def)

lemma py_join_Cons: "ts \<noteq> [] \<Longrightarrow> py_join sep (t # ts) = t @ sep # py_join sep ts"
  by (cases ts) auto

lemma py_join_split: "py_join sep (py_split sep s) = s"
proof (induction s)
  case Nil
  then show ?case by simp
next
  case (Cons c cs)
  obtain t ts where ts: "py_split sep cs = t # ts"
    using py_split_nonempty [of sep cs] by (cases "py_split sep cs") auto
  show ?case
  proof (cases "c = sep")
    case True
    with Cons ts show ?thesis by (simp add: py_join_Cons)
  next
    case False
    with Cons ts show ?thesis by (cases ts) (auto simp: Let_def)
  qed
qed

lemma py_split_no_sep: "t \<in> set (py_split sep s) \<Longrightarrow> sep \<notin> set t"
proof (induction s arbitrary: t)
  case Nil
  then show ?case by simp
next
  case (Cons c cs)
  obtain u us where us: "py_split sep cs = u # us"
    using py_split_nonempty [of sep cs] by (cases "py_split sep cs") auto
  from Cons us show ?case
    by (auto simp: Let_def split: if_splits)
qed

lemma py_split_token: "sep \<notin> set t \<Longrightarrow> py_split sep (t @ sep # s) = t # py_split sep s"
  by (induction t) (auto simp: Let_def)

lemma py_split_single: "sep \<notin> set t \<Longrightarrow> py_split sep t = [t]"
  by (induction t) (auto simp: Let_def)

lemma py_split_join: "ts \<noteq> [] \<Longrightarrow> \<forall>t\<in>set ts. sep \<notin> set t \<Longrightarrow> py_split sep (py_join sep ts) = ts"
proof (induction ts rule: py_join.induct)
  case (1 sep)
  then show ?case by simp
next
  case (2 sep t)
  then show ?case by (simp add: py_split_single)
next
  case (3 sep t u ts)
  then show ?case by (simp add: py_split_token)
qed

lemma basename_idem: "basename (basename p) = basename p"
  unfolding basename_def
  by (simp add: takeWhile_idem)

lemma py_in_dict: "py_in k (JDict kvs) = Inr (map_of kvs k \<noteq> None)"
  by (simp add: map_of_eq_None_iff)

lemma metadata_proxy_time_dict:
  "\<exists>m1. metadata_proxy_time (JDict kvs) m = Inr m1 \<and> (\<forall>k. k \<noteq> ''proxy_time_consumed'' \<longrightarrow> m1 k = m k)"
  unfolding metadata_proxy_time_def rbind_def py_in_dict
  by (cases "map_of kvs ''proxy-time-consumed''") auto

lemma metadata_model_frame:
  "metadata_model log_data m = Inr m3 \<Longrightarrow> k \<noteq> ''model'' \<Longrightarrow> m3 k = m k"
  unfolding metadata_model_def rbind_def
  by (auto split: sum.splits if_splits)

lemma metadata_filename_keys:
  "metadata_filename filename m ''ip_address'' = Some (JStr (extract_ip_address (basename filename)))"
  "metadata_filename filename m ''machine_id'' = Some (JStr (extract_machine_id (basename filename)))"
  "metadata_filename filename m ''editor_version'' = Some (JStr (extract_editor_version (basename filename)))"
  by (simp_all add: metadata_filename_def)

lemma extract_metadata_dict_keys:
  "extract_metadata (JDict kvs) filename ''ip_address'' = Some (JStr (extract_ip_address (basename filename)))"
  "extract_metadata (JDict kvs) filename ''machine_id'' = Some (JStr (extract_machine_id (basename filename)))"
  "extract_metadata (JDict kvs) filename ''editor_version'' = Some (JStr (extract_editor_version (basename filename)))"
proof -
  obtain m1 where m1: "metadata_proxy_time (JDict kvs) Map.empty = Inr m1"
    using metadata_proxy_time_dict by blast
  have *: "extract_metadata (JDict kvs) filename k = metadata_filename filename m1 k"
    if "k \<noteq> ''model''" for k
    using that m1 metadata_model_frame [of "JDict kvs" "metadata_filename filename m1" _ k]
    by (auto simp: extract_metadata_def Let_def split: sum.splits)
  show "extract_metadata (JDict kvs) filename ''ip_address'' = Some (JStr (extract_ip_address (basename filename)))"
    by (simp add: * metadata_filename_keys)
  show "extract_metadata (JDict kvs) filename ''machine_id'' = Some (JStr (extract_machine_id (basename filename)))"
    by (simp add: * metadata_filename_keys)
  show "extract_metadata (JDict kvs) filename ''editor_version'' = Some (JStr (extract_editor_version (basename filename)))"
    by (simp add: * metadata_filename_keys)
qed


text \<open>
  Claim C8. For every filename, the pieces of \<open>filename.split('_')\<close> are its
  underscore-delimited tokens (joining them by underscores gives the filename back, no
  piece contains an underscore, and no other such list does); the decoder returns the
  2nd, 3rd and 4th token as machine id, IP address and editor version, and \<open>unknown\<close> for
  each one that is missing, without raising. The metadata of any record (a JSON object)
  therefore always has the keys \<open>machine_id\<close>, \<open>ip_address\<close> and \<open>editor_version\<close>; with
  only two tokens the IP address and the editor version are \<open>unknown\<close>.
\<close>

theorem filename_decoder_never_fails:
  "let ts = py_split (CHR ''_'') filename in
     ts \<noteq> [] \<and> py_join (CHR ''_'') ts = filename \<and> (\<forall>t\<in>set ts. CHR ''_'' \<notin> set t) \<and>
     (\<forall>us. us \<noteq> [] \<and> (\<forall>u\<in>set us. CHR ''_'' \<notin> set u) \<and> py_join (CHR ''_'') us = filename
        \<longrightarrow> us = ts) \<and>
     extract_machine_id filename = (if 1 < length ts then ts ! 1 else ''unknown'') \<and>
     extract_ip_address filename = (if 2 < length ts then ts ! 2 else ''unknown'') \<and>
     extract_editor_version filename = (if 3 < length ts then ts ! 3 else ''unknown'') \<and>
     (length ts = 2 \<longrightarrow>
        extract_ip_address filename = ''unknown'' \<and> extract_editor_version filename = ''unknown'') \<and>
     (\<forall>kvs path. basename path = filename \<longrightarrow>
        extract_metadata (JDict kvs) path ''machine_id'' = Some (JStr (extract_machine_id filename)) \<and>
        extract_metadata (JDict kvs) path ''ip_address'' = Some (JStr (extract_ip_address filename)) \<and>
        extract_metadata (JDict kvs) path ''editor_version''
          = Some (JStr (extract_editor_version filename)))"
proof -
  have uniq: "us = py_split (CHR ''_'') filename"
    if "us \<noteq> []" "\<forall>u\<in>set us. CHR ''_'' \<notin> set u" "py_join (CHR ''_'') us = filename" for us
    using py_split_join [OF that(1) that(2)] that(3) by simp
  have meta: "extract_metadata (JDict kvs) path ''machine_id'' = Some (JStr (extract_machine_id filename)) \<and>
        extract_metadata (JDict kvs) path ''ip_address'' = Some (JStr (extract_ip_address filename)) \<and>
        extract_metadata (JDict kvs) path ''editor_version''
          = Some (JStr (extract_editor_version filename))"
    if "basename path = filename" for kvs path
    using that by (simp add: extract_metadata_dict_keys)
  show ?thesis
    unfolding Let_def
    apply (intro conjI)
            apply (rule py_split_nonempty)
           apply (rule py_join_split)
          apply (simp add: py_split_no_sep)
         apply (use uniq in blast)
        apply (simp add: extract_machine_id_def Let_def)
       apply (simp add: extract_ip_address_def Let_def)
      apply (simp add: extract_editor_version_def Let_def)
     apply (simp add: extract_ip_address_def extract_editor_version_def Let_def)
    apply (use meta in blast)
    done
qed

text \<open>The theorem at the two-token filename \<open>x_y.json\<close>.\<close>

theorem filename_decoder_two_tokens:
  "py_split (CHR ''_'') ''x_y.json'' = [''x'', ''y.json''] \<and>
   extract_machine_id ''x_y.json'' = ''y.json'' \<and>
   extract_ip_address ''x_y.json'' = ''unknown'' \<and>
   extract_editor_version ''x_y.json'' = ''unknown'' \<and>
   basename ''/logs/u/chat-panel/x_y.json'' = ''x_y.json'' \<and>
   extract_metadata (JDict []) ''/logs/u/chat-panel/x_y.json'' ''ip_address'' = Some (JStr ''unknown'') \<and>
   extract_metadata (JDict []) ''/logs/u/chat-panel/x_y.json'' ''editor_version'' = Some (JStr ''unknown'')"
proof -
  have split: "py_split (CHR ''_'') ''x_y.json'' = [''x'', ''y.json'']"
    by (simp add: Let_def)
  have base: "basename ''/logs/u/chat-panel/x_y.json'' = ''x_y.json''"
    by (simp add: basename_def)
  show ?thesis
    using filename_decoder_never_fails [of "''x_y.json''"] base
    unfolding split Let_def
    by simp
qed

section \<open>Properties of conversation extraction\<close>

lemma choice_delta_typed:
  "choice_typed choice \<Longrightarrow> choice_delta choice acc = Inr (acc @ choice_text choice)"
  unfolding choice_typed_def choice_delta_def choice_text_def
  by (auto split: json.splits option.splits)

lemma choices_loop_typed:
  "list_all choice_typed choices \<Longrightarrow>
   choices_loop choices acc = Inr (acc @ concat (map choice_text choices))"
  by (induction choices arbitrary: acc) (auto simp: rbind_def choice_delta_typed)

lemma chunk_step_typed:
  "chunk_typed chunk \<Longrightarrow> chunk_step chunk acc = Inr (acc @ chunk_text chunk)"
  unfolding chunk_typed_def chunk_step_def chunk_text_def
  by (auto simp: rbind_def choices_loop_typed split: json.splits option.splits)

lemma chunks_loop_typed:
  "list_all chunk_typed chunks \<Longrightarrow> chunks_loop chunks acc = Inr (acc @ stream_text chunks)"
  by (induction chunks arbitrary: acc) (auto simp: rbind_def chunk_step_typed stream_text_def)

lemma append_turn_frame:
  "append_turn r conv = (conv @ fst (append_turn r []), snd (append_turn r []))"
  by (simp add: append_turn_def split: sum.splits)

lemma streaming_branch_frame:
  "streaming_branch ld chunks conv
     = (conv @ fst (streaming_branch ld chunks []), snd (streaming_branch ld chunks []))"
  unfolding streaming_branch_def
  by (subst append_turn_frame) (simp split: sum.splits)

lemma direct_branch_frame:
  "direct_branch ld kvs conv
     = (conv @ fst (direct_branch ld kvs []), snd (direct_branch ld kvs []))"
  unfolding direct_branch_def
  by (subst append_turn_frame) (simp split: option.splits json.splits list.splits)

lemma response_shape_frame:
  "response_shape ld c conv
     = (conv @ fst (response_shape ld c []), snd (response_shape ld c []))"
  unfolding response_shape_def
  by (cases c) (simp_all add: streaming_branch_frame [of ld _ conv] direct_branch_frame [of ld _ conv])

lemma response_shape_null: "response_shape ld JNull conv = (conv, None)"
  by (simp add: response_shape_def)

lemma outcome_case_id:
  "(case x of (c, Some e) \<Rightarrow> (c, Some e) | (c, None) \<Rightarrow> (c, None)) = (x :: outcome)"
  by (simp split: prod.splits option.splits)

lemma response_part_string:
  "get_content ld ''response'' = Inr (JStr s) \<Longrightarrow> has_content ld ''response'' = Inr True \<Longrightarrow>
   response_part parse ld conv =
     (case try_loads parse s of
        Inl e \<Rightarrow> (conv, Some e)
      | Inr (Some v) \<Rightarrow> response_shape ld v conv
      | Inr None \<Rightarrow> append_turn (assistant_turn ld (JStr s)) conv)"
  by (simp add: response_part_def response_shape_null outcome_case_id
      split: sum.splits option.splits)

lemma response_part_unparsed:
  "get_content ld ''response'' = Inr (JStr s) \<Longrightarrow> has_content ld ''response'' = Inr True \<Longrightarrow>
   parse s = Inl JSONDecodeError \<Longrightarrow>
   response_part parse ld conv = append_turn (assistant_turn ld (JStr s)) conv"
  by (simp add: response_part_string try_loads_def)

lemma response_part_parsed:
  "get_content ld ''response'' = Inr (JStr s) \<Longrightarrow> has_content ld ''response'' = Inr True \<Longrightarrow>
   parse s = Inr v \<Longrightarrow>
   response_part parse ld conv = response_shape ld v conv"
  by (simp add: response_part_string try_loads_def)

lemma response_part_structured:
  "get_content ld ''response'' = Inr c \<Longrightarrow> has_content ld ''response'' = Inr True \<Longrightarrow>
   \<not> is_str c \<Longrightarrow>
   response_part parse ld conv = response_shape ld c conv"
  by (cases c) (simp_all add: response_part_def)

lemma response_part_frame:
  "response_part parse ld conv
     = (conv @ fst (response_part parse ld []), snd (response_part parse ld []))"
proof (cases "has_content ld ''response''")
  case (Inl e)
  then show ?thesis by (simp add: response_part_def)
next
  case (Inr b)
  show ?thesis
  proof (cases b)
    case False
    with Inr show ?thesis by (simp add: response_part_def)
  next
    case True
    have has: "has_content ld ''response'' = Inr True"
      using Inr True by simp
    show ?thesis
    proof (cases "get_content ld ''response''")
      case (Inl e)
      with has show ?thesis by (simp add: response_part_def)
    next
      case (Inr c)
      show ?thesis
      proof (cases "is_str c")
        case False
        show ?thesis
          unfolding response_part_structured [OF Inr has False]
          by (rule response_shape_frame)
      next
        case True
        then obtain s where c: "c = JStr s" by (cases c) auto
        note str = response_part_string [of ld s, OF Inr [unfolded c] has]
        show ?thesis
        proof (cases "try_loads parse s")
          case (Inl e)
          then show ?thesis by (simp add: str)
        next
          case (Inr r)
          show ?thesis
          proof (cases r)
            case None
            with Inr show ?thesis
              using append_turn_frame [of "assistant_turn ld (JStr s)" conv] by (simp add: str)
          next
            case (Some v)
            with Inr show ?thesis
              using response_shape_frame [of ld v conv] by (simp add: str)
          qed
        qed
      qed
    qed
  qed
qed

lemma extract_conversation_keeps_request:
  "prefix (fst (request_part parse ld [])) (extract_conversation parse ld)"
proof (cases "request_part parse ld []")
  case (Pair req ex)
  show ?thesis
  proof (cases ex)
    case None
    with Pair show ?thesis
      by (simp add: extract_conversation_def extract_conversation_body_def
          response_part_frame [of parse ld req])
  next
    case (Some e)
    with Pair show ?thesis
      by (simp add: extract_conversation_def extract_conversation_body_def)
  qed
qed

lemma extract_conversation_split:
  "request_part parse ld [] = (req, None) \<Longrightarrow>
   extract_conversation parse ld = req @ fst (response_part parse ld [])"
  by (simp add: extract_conversation_def extract_conversation_body_def
      response_part_frame [of parse ld req])

lemma get_content_has_content:
  "get_content ld src = Inr c \<Longrightarrow> has_content ld src = Inr True"
proof -
  assume g: "get_content ld src = Inr c"
  then obtain r where r: "py_getitem ld src = Inr r" and c: "py_getitem r ''content'' = Inr c"
    unfolding get_content_def rbind_def by (auto split: sum.splits)
  from r obtain kvs where ld: "ld = JDict kvs" and kr: "map_of kvs src = Some r"
    by (cases ld) (auto split: option.splits)
  from c obtain rkvs where rd: "r = JDict rkvs" and rc: "map_of rkvs ''content'' = Some c"
    by (cases r) (auto split: option.splits)
  have "src \<in> fst ` set kvs" "''content'' \<in> fst ` set rkvs"
    using kr rc by (force dest: map_of_SomeD)+
  then show ?thesis
    unfolding has_content_def ld
    by (simp add: py_and_def rbind_def kr rd)
qed

lemma get_content_timestamp:
  "get_content ld src = Inr c \<Longrightarrow> py_get ld ''timestamp'' JNull = Inr (record_timestamp ld)"
  unfolding get_content_def rbind_def record_timestamp_def
  by (cases ld) (simp_all split: option.splits)


text \<open>
  Claim C5, as amended. For every record whose \<open>response.content\<close> is a string on which
  the parser raises \<open>JSONDecodeError\<close>, and whose request half ends without raising,
  extraction appends exactly one turn after the request's turns: role \<open>assistant\<close>, the
  raw string as content, the record's top-level timestamp. Nothing else is appended, so
  neither the streaming nor the direct branch contributes; the response half on its own
  always appends exactly that turn.
\<close>

theorem unparsed_response_is_the_reply:
  assumes "get_content log_data ''response'' = Inr (JStr s)"
    and "parse s = Inl JSONDecodeError"
    and "request_part parse log_data [] = (request_turns, None)"
  shows "extract_conversation parse log_data
           = request_turns @ [\<lparr>turn_role = JStr ''assistant'', turn_content = JStr s,
                                turn_timestamp = record_timestamp log_data\<rparr>]
         \<and> response_part parse log_data conversation
           = (conversation @ [\<lparr>turn_role = JStr ''assistant'', turn_content = JStr s,
                                 turn_timestamp = record_timestamp log_data\<rparr>], None)"
proof -
  have has: "has_content log_data ''response'' = Inr True"
    using assms(1) by (rule get_content_has_content)
  have ts: "py_get log_data ''timestamp'' JNull = Inr (record_timestamp log_data)"
    using assms(1) by (rule get_content_timestamp)
  have resp: "response_part parse log_data conv
           = (conv @ [\<lparr>turn_role = JStr ''assistant'', turn_content = JStr s,
                        turn_timestamp = record_timestamp log_data\<rparr>], None)" for conv
    unfolding response_part_unparsed [of log_data s parse, OF assms(1) has assms(2)]
    by (simp add: append_turn_def assistant_turn_def rbind_def ts)
  show ?thesis
    using extract_conversation_split [OF assms(3)] resp by simp
qed

text \<open>The theorem at a record with one user message and the plain reply \<open>Hello\<close>.\<close>

theorem unparsed_response_witness:
  "get_content plain_record ''response'' = Inr (JStr ''Hello'') \<and> no_json ''Hello'' = Inl JSONDecodeError \<and>
   request_part no_json plain_record []
     = ([\<lparr>turn_role = JStr ''user'', turn_content = JStr ''Hi'',
          turn_timestamp = JStr ''2025-03-26T06:16:09''\<rparr>], None) \<and>
   extract_conversation no_json plain_record
     = [\<lparr>turn_role = JStr ''user'', turn_content = JStr ''Hi'',
          turn_timestamp = JStr ''2025-03-26T06:16:09''\<rparr>,
        \<lparr>turn_role = JStr ''assistant'', turn_content = JStr ''Hello'',
          turn_timestamp = JStr ''2025-03-26T06:16:09''\<rparr>]"
proof -
  have g: "get_content plain_record ''response'' = Inr (JStr ''Hello'')"
    by (simp add: plain_record_def get_content_def rbind_def)
  have p: "no_json ''Hello'' = Inl JSONDecodeError"
    by (simp add: no_json_def)
  have r: "request_part no_json plain_record []
     = ([\<lparr>turn_role = JStr ''user'', turn_content = JStr ''Hi'',
          turn_timestamp = JStr ''2025-03-26T06:16:09''\<rparr>], None)"
    by (simp add: plain_record_def request_part_def has_content_def get_content_def rbind_def
        py_and_def message_turn_def)
  have t: "record_timestamp plain_record = JStr ''2025-03-26T06:16:09''"
    by (simp add: plain_record_def record_timestamp_def)
  show ?thesis
    using unparsed_response_is_the_reply [OF g p r] g p r t by simp
qed

text \<open>
  Claim C5 as stated fails: with \<open>"messages": null\<close> in the request, the loop over the
  messages raises \<open>TypeError\<close>, the handler returns the empty conversation, and the plain
  reply of the response is never appended; and a response string on which the parser
  raises \<open>RecursionError\<close> passes the handler for \<open>JSONDecodeError\<close>, so that no turn is
  appended for it either.
\<close>

theorem unparsed_response_lost:
  "get_content plain_record_null_messages ''response'' = Inr (JStr ''Hello'') \<and>
   no_json ''Hello'' = Inl JSONDecodeError \<and>
   extract_conversation no_json plain_record_null_messages = [] \<and>
   get_content deep_response_record ''response'' = Inr (JStr deep_text) \<and>
   deep_json deep_text = Inl RecursionError \<and>
   extract_conversation deep_json deep_response_record = []"
proof -
  have 1: "extract_conversation no_json plain_record_null_messages = []"
    by (simp add: plain_record_null_messages_def extract_conversation_def
        extract_conversation_body_def request_part_def has_content_def get_content_def
        rbind_def py_and_def)
  have 2: "get_content deep_response_record ''response'' = Inr (JStr deep_text)"
    by (simp add: deep_response_record_def get_content_def rbind_def)
  have 3: "deep_json deep_text = Inl RecursionError"
    by (simp add: deep_json_def)
  have "request_part deep_json deep_response_record [] = ([], None)"
    by (simp add: deep_response_record_def request_part_def has_content_def py_and_def)
  moreover have "response_part deep_json deep_response_record [] = ([], Some RecursionError)"
    using 2 3 get_content_has_content [OF 2]
    by (simp add: response_part_string try_loads_def)
  ultimately have 4: "extract_conversation deep_json deep_response_record = []"
    by (simp add: extract_conversation_def extract_conversation_body_def)
  show ?thesis
    using 1 2 3 4
    by (simp add: plain_record_null_messages_def get_content_def rbind_def no_json_def)
qed

lemma response_shape_stream:
  assumes "list_all chunk_typed chunks"
    and "py_get log_data ''timestamp'' JNull = Inr ts"
  shows "response_shape log_data (JList chunks) conv
           = (conv @ (if stream_text chunks \<noteq> []
                      then [\<lparr>turn_role = JStr ''assistant'', turn_content = JStr (stream_text chunks),
                              turn_timestamp = ts\<rparr>]
                      else []), None)"
  using chunks_loop_typed [OF assms(1), of "[]"] assms(2)
  by (simp add: response_shape_def streaming_branch_def append_turn_def assistant_turn_def rbind_def)

text \<open>
  Claim C6, as amended. For every record whose \<open>response.content\<close> is (or parses to) a list
  of streaming chunks in which every non-empty \<open>delta.content\<close> is a string and every
  non-empty \<open>choices\<close> is a list, and whose request half ends without raising, the
  accumulator ends as the concatenation of the chunks' \<open>delta.content\<close> strings in list
  order, and exactly one assistant turn with that content is appended after the request's
  turns if and only if the concatenation is not empty.
\<close>

theorem streaming_chunks_concatenated:
  assumes "get_content log_data ''response'' = Inr c"
    and "c = JList chunks \<or> (\<exists>s. c = JStr s \<and> parse s = Inr (JList chunks))"
    and "list_all chunk_typed chunks"
    and "request_part parse log_data [] = (request_turns, None)"
  shows "chunks_loop chunks [] = Inr (stream_text chunks) \<and>
         extract_conversation parse log_data
           = request_turns @
             (if stream_text chunks \<noteq> []
              then [\<lparr>turn_role = JStr ''assistant'', turn_content = JStr (stream_text chunks),
                      turn_timestamp = record_timestamp log_data\<rparr>]
              else [])"
proof -
  have has: "has_content log_data ''response'' = Inr True"
    using assms(1) by (rule get_content_has_content)
  have ts: "py_get log_data ''timestamp'' JNull = Inr (record_timestamp log_data)"
    using assms(1) by (rule get_content_timestamp)
  have "response_part parse log_data [] = response_shape log_data (JList chunks) []"
  proof (cases "c = JList chunks")
    case True
    then show ?thesis
      using response_part_structured [of log_data c parse "[]", OF assms(1) has] by simp
  next
    case False
    with assms(2) obtain s where s: "c = JStr s" "parse s = Inr (JList chunks)"
      by blast
    show ?thesis
      using response_part_parsed [of log_data s parse "JList chunks" "[]"] assms(1) has s by simp
  qed
  then have "fst (response_part parse log_data [])
               = (if stream_text chunks \<noteq> []
                  then [\<lparr>turn_role = JStr ''assistant'', turn_content = JStr (stream_text chunks),
                          turn_timestamp = record_timestamp log_data\<rparr>]
                  else [])"
    by (simp add: response_shape_stream [OF assms(3) ts])
  then show ?thesis
    using extract_conversation_split [OF assms(4)] chunks_loop_typed [OF assms(3), of "[]"]
    by simp
qed

text \<open>The theorem at the chunks \<open>Hel\<close>, \<open>lo\<close>: one assistant turn with content \<open>Hello\<close>.\<close>

theorem streaming_hello_witness:
  "get_content streamed_record ''response'' = Inr (JList hello_chunks) \<and>
   list_all chunk_typed hello_chunks \<and>
   request_part no_json streamed_record [] = ([], None) \<and>
   stream_text hello_chunks = ''Hello'' \<and>
   extract_conversation no_json streamed_record
     = [\<lparr>turn_role = JStr ''assistant'', turn_content = JStr ''Hello'',
          turn_timestamp = JStr ''2025-03-26T06:16:09''\<rparr>]"
proof -
  have g: "get_content streamed_record ''response'' = Inr (JList hello_chunks)"
    by (simp add: streamed_record_def get_content_def rbind_def)
  have ty: "list_all chunk_typed hello_chunks"
    by (simp add: hello_chunks_def chunk_typed_def choice_typed_def)
  have r: "request_part no_json streamed_record [] = ([], None)"
    by (simp add: streamed_record_def request_part_def has_content_def py_and_def)
  have st: "stream_text hello_chunks = ''Hello''"
    by (simp add: hello_chunks_def stream_text_def chunk_text_def choice_text_def)
  have t: "record_timestamp streamed_record = JStr ''2025-03-26T06:16:09''"
    by (simp add: streamed_record_def record_timestamp_def)
  have "JList hello_chunks = JList hello_chunks
          \<or> (\<exists>s. JList hello_chunks = JStr s \<and> no_json s = Inr (JList hello_chunks))"
    by simp
  from streaming_chunks_concatenated [OF g this ty r] show ?thesis
    using g ty r st t by simp
qed

text \<open>
  Claim C6 as stated fails: with \<open>"request": null\<close> the test \<open>'content' in None\<close> raises
  before the response is looked at, and with a number as \<open>delta.content\<close> the
  concatenation raises; in both cases no assistant turn is appended although text was
  streamed.
\<close>

theorem streaming_turn_lost:
  "get_content streamed_record_null_request ''response'' = Inr (JList hello_chunks) \<and>
   stream_text hello_chunks = ''Hello'' \<and>
   extract_conversation no_json streamed_record_null_request = [] \<and>
   extract_conversation no_json streamed_record_number = []"
  by (simp add: streamed_record_null_request_def streamed_record_number_def get_content_def rbind_def
      hello_chunks_def stream_text_def chunk_text_def choice_text_def
      extract_conversation_def extract_conversation_body_def request_part_def response_part_def
      response_shape_def streaming_branch_def chunk_step_def choice_delta_def
      has_content_def py_and_def)


lemma request_part_skipped:
  assumes "request_skipped parse log_data"
  shows "request_part parse log_data [] = ([], None)"
proof (cases "has_content log_data ''request'' = Inr False")
  case True
  then show ?thesis by (simp add: request_part_def)
next
  case False
  with assms obtain c where c: "get_content log_data ''request'' = Inr c"
    and caught: "parse_caught parse c"
    and m: "\<not> is_dict (parsed_or_original parse c)
            \<or> py_in ''messages'' (parsed_or_original parse c) = Inr False"
    unfolding request_skipped_def by (auto split: sum.splits)
  have has: "has_content log_data ''request'' = Inr True"
    using c by (rule get_content_has_content)
  have content: "(case c of
                    JStr s \<Rightarrow>
                      (case try_loads parse s of
                         Inl e \<Rightarrow> Inl e
                       | Inr (Some v) \<Rightarrow> Inr v
                       | Inr None \<Rightarrow> Inr c)
                  | _ \<Rightarrow> Inr c) = Inr (parsed_or_original parse c)"
    using caught
    by (cases c) (auto simp: parse_caught_def parsed_or_original_def try_loads_def split: sum.splits)
  have "py_and (Inr (is_dict (parsed_or_original parse c)))
          (py_in ''messages'' (parsed_or_original parse c)) = Inr False"
    using m by (auto simp: py_and_def split: bool.splits)
  then show ?thesis
    using has c by (simp add: request_part_def content)
qed

lemma response_raises_no_turn:
  assumes "snd (response_part parse log_data conv) = Some ex"
  shows "fst (response_part parse log_data conv) = conv"
proof -
  have conv: "fst (response_part parse log_data conv) = conv @ fst (response_part parse log_data [])"
    and ex: "snd (response_part parse log_data []) = Some ex"
    using assms response_part_frame [of parse log_data conv] by simp_all
  have at: "snd (append_turn r []) = Some ex \<Longrightarrow> fst (append_turn r []) = []" for r
    by (auto simp: append_turn_def split: sum.splits)
  have sh: "snd (response_shape log_data c []) = Some ex \<Longrightarrow> fst (response_shape log_data c []) = []"
    for c
    unfolding response_shape_def streaming_branch_def direct_branch_def
    by (auto split: json.splits sum.splits if_splits option.splits list.splits dest: at)
  have "fst (response_part parse log_data []) = []"
  proof (cases "has_content log_data ''response''")
    case (Inl e)
    then show ?thesis by (simp add: response_part_def)
  next
    case (Inr b)
    show ?thesis
    proof (cases b)
      case False
      with Inr show ?thesis by (simp add: response_part_def)
    next
      case True
      have has: "has_content log_data ''response'' = Inr True"
        using Inr True by simp
      show ?thesis
      proof (cases "get_content log_data ''response''")
        case (Inl e)
        with has show ?thesis by (simp add: response_part_def)
      next
        case (Inr c)
        show ?thesis
        proof (cases "is_str c")
          case False
          show ?thesis
            using ex sh unfolding response_part_structured [OF Inr has False] by blast
        next
          case True
          then obtain s where c: "c = JStr s" by (cases c) auto
          note str = response_part_string [of log_data s, OF Inr [unfolded c] has]
          show ?thesis
          proof (cases "try_loads parse s")
            case (Inl e)
            then show ?thesis by (simp add: str)
          next
            case (Inr r)
            show ?thesis
            proof (cases r)
              case None
              with Inr ex show ?thesis
                using at [of "assistant_turn log_data (JStr s)"] by (simp add: str)
            next
              case (Some v)
              with Inr ex show ?thesis
                using sh [of v] by (simp add: str)
            qed
          qed
        qed
      qed
    qed
  qed
  with conv show ?thesis by simp
qed

lemma process_file_dict:
  assumes "load_json_file e (fi_path fi) = Inr (JDict kvs)"
  shows "process_file e fi w =
     (Some \<lparr>doc_timestamp = (case map_of kvs ''timestamp'' of
                               None \<Rightarrow> JStr (now_isoformat e (clock_reads w)) | Some v \<Rightarrow> v),
            doc_file_name = basename (fi_path fi),
            doc_user_id = fi_user_id fi,
            doc_conversation = extract_conversation (loads e) (JDict kvs),
            doc_metadata = extract_metadata (JDict kvs) (basename (fi_path fi))\<rparr>,
      w\<lparr>clock_reads := Suc (clock_reads w)\<rparr>)"
  using assms by (simp add: process_file_def Let_def split: option.splits)

lemma extract_conversation_raised:
  "request_part parse ld [] = (req, Some ex) \<Longrightarrow> extract_conversation parse ld = req"
  by (simp add: extract_conversation_def extract_conversation_body_def)

text \<open>
  Claim C4, as amended. Conversation extraction never raises to its caller: it returns the
  turns appended before the first exception. When the request half raises, the result is
  the turns the request half had appended, and \<open>response.content\<close> is not examined. When
  the request half ends without raising, the result is the request's turns followed by
  the response's turns, so the turns taken from \<open>request.content\<close> are never lost by a
  mismatch in \<open>response.content\<close>, and a response half that raises appends no turn. In
  particular a mismatch in \<open>request.content\<close> that the code tests for (a missing key, a
  string on which the parser raises \<open>JSONDecodeError\<close>, a content that is not an object)
  gives no request turn and leaves the response's turns as they are. Every record that
  is a JSON object, also one with zero turns, produces a document.
\<close>

theorem extraction_never_raises:
  "prefix (fst (request_part parse log_data [])) (extract_conversation parse log_data) \<and>
   (snd (request_part parse log_data []) \<noteq> None \<longrightarrow>
      extract_conversation parse log_data = fst (request_part parse log_data [])) \<and>
   (snd (request_part parse log_data []) = None \<longrightarrow>
      extract_conversation parse log_data
        = fst (request_part parse log_data []) @ fst (response_part parse log_data [])) \<and>
   (request_skipped parse log_data \<longrightarrow>
      request_part parse log_data [] = ([], None) \<and>
      extract_conversation parse log_data = fst (response_part parse log_data [])) \<and>
   (\<forall>conversation. snd (response_part parse log_data conversation) \<noteq> None \<longrightarrow>
      fst (response_part parse log_data conversation) = conversation) \<and>
   (\<forall>e fi kvs w. load_json_file e (fi_path fi) = Inr (JDict kvs) \<longrightarrow>
      (\<exists>d. fst (process_file e fi w) = Some d \<and>
           doc_conversation d = extract_conversation (loads e) (JDict kvs)))"
proof (intro conjI)
  show "prefix (fst (request_part parse log_data [])) (extract_conversation parse log_data)"
    by (rule extract_conversation_keeps_request)
  show "snd (request_part parse log_data []) \<noteq> None \<longrightarrow>
      extract_conversation parse log_data = fst (request_part parse log_data [])"
    using extract_conversation_raised [of parse log_data "fst (request_part parse log_data [])"]
    by (cases "request_part parse log_data []") auto
  show "snd (request_part parse log_data []) = None \<longrightarrow>
      extract_conversation parse log_data
        = fst (request_part parse log_data []) @ fst (response_part parse log_data [])"
    using extract_conversation_split [of parse log_data "fst (request_part parse log_data [])"]
    by (cases "request_part parse log_data []") simp
  show "request_skipped parse log_data \<longrightarrow>
      request_part parse log_data [] = ([], None) \<and>
      extract_conversation parse log_data = fst (response_part parse log_data [])"
    using extract_conversation_split [of parse log_data "[]"] request_part_skipped [of parse log_data]
    by simp
  show "\<forall>conversation. snd (response_part parse log_data conversation) \<noteq> None \<longrightarrow>
      fst (response_part parse log_data conversation) = conversation"
    using response_raises_no_turn by blast
  show "\<forall>e fi kvs w. load_json_file e (fi_path fi) = Inr (JDict kvs) \<longrightarrow>
      (\<exists>d. fst (process_file e fi w) = Some d \<and>
           doc_conversation d = extract_conversation (loads e) (JDict kvs))"
    by (simp add: process_file_dict)
qed

text \<open>The theorem at a record whose request content is not JSON, at a record whose
  request is \<open>null\<close>, at a response that raises, and at the example file holding the
  empty object.\<close>

theorem extraction_never_raises_witness:
  "request_skipped no_json garbled_request_record \<and>
   snd (request_part no_json garbled_request_record []) = None \<and>
   extract_conversation no_json garbled_request_record
     = [\<lparr>turn_role = JStr ''assistant'', turn_content = JStr ''Hello'', turn_timestamp = JNull\<rparr>] \<and>
   snd (request_part no_json null_request_record []) \<noteq> None \<and>
   extract_conversation no_json null_request_record = [] \<and>
   snd (response_part no_json streamed_record_number []) \<noteq> None \<and>
   fst (response_part no_json streamed_record_number []) = [] \<and>
   load_json_file demo_env (fi_path \<lparr>fi_path = demo_good, fi_user_id = ''amy''\<rparr>) = Inr (JDict []) \<and>
   (\<exists>d. fst (process_file demo_env \<lparr>fi_path = demo_good, fi_user_id = ''amy''\<rparr> empty_world) = Some d \<and>
        doc_conversation d = [])"
proof -
  have g: "get_content garbled_request_record ''request'' = Inr (JStr ''not json'')"
    by (simp add: garbled_request_record_def get_content_def rbind_def)
  have sk: "request_skipped no_json garbled_request_record"
    by (simp add: request_skipped_def g parsed_or_original_def parse_caught_def no_json_def)
  have resp: "response_part no_json garbled_request_record []
     = ([\<lparr>turn_role = JStr ''assistant'', turn_content = JStr ''Hello'', turn_timestamp = JNull\<rparr>],
        None)"
    by (simp add: garbled_request_record_def response_part_def has_content_def get_content_def
        rbind_def py_and_def no_json_def try_loads_def append_turn_def assistant_turn_def
        response_shape_def)
  have null: "request_part no_json null_request_record [] = ([], Some TypeError)"
    by (simp add: null_request_record_def request_part_def has_content_def rbind_def py_and_def)
  have num: "response_part no_json streamed_record_number [] = ([], Some TypeError)"
    by (simp add: streamed_record_number_def response_part_def has_content_def get_content_def
        rbind_def py_and_def response_shape_def streaming_branch_def chunk_step_def
        choice_delta_def)
  have ld: "load_json_file demo_env (fi_path \<lparr>fi_path = demo_good, fi_user_id = ''amy''\<rparr>)
              = Inr (JDict [])"
    by (simp add: load_json_file_def demo_env_def demo_loads_def)
  have empty: "extract_conversation demo_loads (JDict []) = []"
    by (simp add: extract_conversation_def extract_conversation_body_def request_part_def
        response_part_def has_content_def py_and_def)
  have le: "loads demo_env = demo_loads"
    by (simp add: demo_env_def)
  note a = extraction_never_raises [of no_json garbled_request_record]
  note b = extraction_never_raises [of no_json streamed_record_number]
  note c = extraction_never_raises [of no_json null_request_record]
  from a have 1: "snd (request_part no_json garbled_request_record []) = None"
    and 2: "extract_conversation no_json garbled_request_record
              = fst (response_part no_json garbled_request_record [])"
    using sk by simp_all
  from b have 3: "fst (response_part no_json streamed_record_number []) = []"
    using num by simp
  from c have 5: "extract_conversation no_json null_request_record = []"
    using null by simp
  from a ld have "\<exists>d. fst (process_file demo_env \<lparr>fi_path = demo_good, fi_user_id = ''amy''\<rparr>
                            empty_world) = Some d \<and>
        doc_conversation d = extract_conversation (loads demo_env) (JDict [])"
    by blast
  then have 4: "\<exists>d. fst (process_file demo_env \<lparr>fi_path = demo_good, fi_user_id = ''amy''\<rparr>
                            empty_world) = Some d \<and>
        doc_conversation d = []"
    by (simp add: le empty)
  show ?thesis
    using sk 1 2 3 4 5 ld resp num null by simp
qed

text \<open>
  Claim C4 as stated fails: with \<open>"request": null\<close> the request half raises \<open>TypeError\<close>,
  and the assistant turn that the response half alone would append is not produced.
\<close>

theorem null_request_drops_response:
  "response_part no_json null_request_record []
     = ([\<lparr>turn_role = JStr ''assistant'', turn_content = JStr ''Hello'', turn_timestamp = JNull\<rparr>],
        None) \<and>
   request_part no_json null_request_record [] = ([], Some TypeError) \<and>
   extract_conversation no_json null_request_record = []"
  by (simp add: null_request_record_def response_part_def request_part_def
      extract_conversation_def extract_conversation_body_def has_content_def get_content_def
      rbind_def py_and_def no_json_def try_loads_def append_turn_def assistant_turn_def
      response_shape_def)

section \<open>Properties of the ledger file\<close>










lemma wellformed_created: "ledger_wellformed (Some (ledger_text l)) = ledger_wellformed l"
  by (cases l) (simp_all add: ledger_text_def ledger_wellformed_def)




lemma wellformed_after_append:
  "ledger_wellformed l \<Longrightarrow> ledger_wellformed (ledger_after_append e q l)"
  by (simp add: ledger_after_append_def wellformed_created) (simp add: ledger_wellformed_def)

lemma ledger_after_Nil: "ledger_after e [] l = l"
  by (simp add: ledger_after_def)

lemma ledger_after_Cons: "ledger_after e (q # qs) l = ledger_after e qs (ledger_after_append e q l)"
  by (simp add: ledger_after_def)


lemma wellformed_after:
  "ledger_wellformed l \<Longrightarrow> ledger_wellformed (ledger_after e qs l)"
  by (induction qs arbitrary: l) (simp_all add: ledger_after_Nil ledger_after_Cons wellformed_after_append)




lemma ledger_after_all_ok:
  "\<forall>q\<in>set qs. append_ok e q \<Longrightarrow>
   ledger_after e qs l
     = (if qs = [] then l else Some (ledger_text l @ concat (map (\<lambda>p. p @ [CHR 0x0A]) qs)))"
proof (induction qs arbitrary: l)
  case Nil
  then show ?case by (simp add: ledger_after_Nil)
next
  case (Cons q qs)
  then show ?case
    by (simp add: ledger_after_Cons ledger_after_append_def append_ok_def ledger_text_def)
qed

lemma mark_ledger:
  "ledger_file (snd (mark_file_as_processed e q w)) = ledger_after_append e q (ledger_file w)"
  by (simp add: mark_file_as_processed_def ledger_after_append_def ledger_text_def Let_def
      split: option.splits)

lemma mark_history:
  "history (snd (mark_file_as_processed e q w))
     = history w @ (if append_ok e q then [LedgerAppend q] else [])"
  by (simp add: mark_file_as_processed_def append_ok_def Let_def split: option.splits)

lemma mark_clock: "clock_reads (snd (mark_file_as_processed e q w)) = clock_reads w"
  by (simp add: mark_file_as_processed_def Let_def split: option.splits)

section \<open>Properties of discovery\<close>

lemma dir_unprocessed_filter:
  "dir_unprocessed e processed d
     = filter (\<lambda>f. fi_path f \<notin> processed) (dir_unprocessed e {} d)"
proof -
  have inner: "map (\<lambda>file. \<lparr>fi_path = path_join root file, fi_user_id = u\<rparr>)
                 (filter (\<lambda>file. suffix ''.json'' file \<and> path_join root file \<notin> processed) files)
             = filter (\<lambda>f. fi_path f \<notin> processed)
                 (map (\<lambda>file. \<lparr>fi_path = path_join root file, fi_user_id = u\<rparr>)
                    (filter (\<lambda>file. suffix ''.json'' file \<and> path_join root file \<notin> {}) files))"
    for root files u
    by (induction files) auto
  show ?thesis
    unfolding dir_unprocessed_def
    by (simp add: filter_concat comp_def case_prod_unfold inner)
qed

lemma all_unprocessed_filter:
  "all_unprocessed e p
     = filter (\<lambda>f. fi_path f \<notin> processed_files p) (json_files e (source_dirs p))"
proof -
  have "dir_unprocessed e (processed_files p)
          = (\<lambda>d. filter (\<lambda>f. fi_path f \<notin> processed_files p) (dir_unprocessed e {} d))"
    by (rule ext) (rule dir_unprocessed_filter)
  then show ?thesis
    unfolding all_unprocessed_def json_files_def
    by (simp add: filter_concat comp_def)
qed

lemma json_files_iff: "f \<in> set (json_files e dirs) \<longleftrightarrow> json_file_under e dirs f"
proof -
  have dir: "f \<in> set (dir_unprocessed e {} d) \<longleftrightarrow>
     path_exists e d \<and>
        (\<exists>(root, files)\<in>set (walk e d). \<exists>file\<in>set files.
           suffix ''.json'' file \<and> f = \<lparr>fi_path = path_join root file,
                                        fi_user_id = get_user_id_from_path d\<rparr>)" for d
    unfolding dir_unprocessed_def
    by (cases "path_exists e d") (force, simp)
  show ?thesis
    unfolding json_files_def all_unprocessed_def json_file_under_def
    by (simp add: dir)
qed

lemma all_unprocessed_iff:
  "f \<in> set (all_unprocessed e p)
     \<longleftrightarrow> json_file_under e (source_dirs p) f \<and> fi_path f \<notin> processed_files p"
  by (auto simp: all_unprocessed_filter json_files_iff)

lemma mtime_error_None_iff: "mtime_error e files = None \<longleftrightarrow> mtimes_known e files"
  by (induction files) (auto simp: mtimes_known_def split: sum.splits)

lemma get_unprocessed_files_known:
  assumes "mtimes_known e (all_unprocessed e p)"
  shows "get_unprocessed_files e p max_files
     = Inr (take (case max_files of None \<Rightarrow> length (all_unprocessed e p)
                 | Some n \<Rightarrow> if n > 0 then nat n else length (all_unprocessed e p))
             (sort_key (mtime e) (all_unprocessed e p)))"
  using assms mtime_error_None_iff [of e "all_unprocessed e p"]
  by (simp add: get_unprocessed_files_def Let_def split: option.splits)

lemma get_unprocessed_files_raises:
  assumes "\<not> mtimes_known e (all_unprocessed e p)"
  shows "\<exists>ex. get_unprocessed_files e p max_files = Inl ex"
proof -
  from assms obtain ex where "mtime_error e (all_unprocessed e p) = Some ex"
    using mtime_error_None_iff [of e "all_unprocessed e p"] by (cases "mtime_error e (all_unprocessed e p)") auto
  then show ?thesis
    by (simp add: get_unprocessed_files_def)
qed



lemma mtime_known:
  "mtimes_known e files \<Longrightarrow> f \<in> set files \<Longrightarrow> getmtime e (fi_path f) = Inr (mtime e f)"
  by (cases "getmtime e (fi_path f)") (auto simp: mtimes_known_def mtime_def list_all_iff)

text \<open>
  Claim C7, as amended. The unprocessed files are the \<open>.json\<close> files under the existing
  source directories whose path is not in the processor's ledger set. If
  the modification time of each of them can be read, discovery returns them sorted by
  modification time ascending (a stable sort), and when the limit is positive the first
  \<open>limit\<close> files of that order, so that every selected file is at most as recent as
  every file left out; with 150 unprocessed files and a limit of 100, exactly 100 are
  selected. If the modification time of one of them cannot be read, discovery raises and
  selects nothing.
\<close>

theorem discovery_sorted_and_capped:
  "(let unprocessed = all_unprocessed e p;
        limit = (case max_files of None \<Rightarrow> length unprocessed
                 | Some n \<Rightarrow> if n > 0 then min (nat n) (length unprocessed) else length unprocessed)
    in (\<forall>f. f \<in> set unprocessed \<longleftrightarrow>
          (\<exists>d\<in>set (source_dirs p). path_exists e d \<and>
             (\<exists>(root, files)\<in>set (walk e d). \<exists>file\<in>set files.
                suffix ''.json'' file \<and>
                f = \<lparr>fi_path = path_join root file, fi_user_id = get_user_id_from_path d\<rparr>)) \<and>
          fi_path f \<notin> processed_files p) \<and>
       (mtimes_known e unprocessed \<longrightarrow>
          (\<forall>f\<in>set unprocessed. getmtime e (fi_path f) = Inr (mtime e f)) \<and>
          (\<exists>selected. get_unprocessed_files e p max_files = Inr selected \<and>
             sorted (map (mtime e) selected) \<and>
             length selected = limit \<and>
             (\<exists>rest. mset (selected @ rest) = mset unprocessed \<and>
                sorted (map (mtime e) (selected @ rest)) \<and>
                (\<forall>t. filter (\<lambda>f. mtime e f = t) (selected @ rest)
                       = filter (\<lambda>f. mtime e f = t) unprocessed) \<and>
                (\<forall>x\<in>set selected. \<forall>y\<in>set rest. mtime e x \<le> mtime e y)) \<and>
             (length unprocessed = 150 \<and> max_files = Some 100 \<longrightarrow> length selected = 100))) \<and>
       (\<not> mtimes_known e unprocessed \<longrightarrow>
          (\<exists>ex. get_unprocessed_files e p max_files = Inl ex)))"
proof -
  define unprocessed where "unprocessed = all_unprocessed e p"
  define n where "n = (case max_files of None \<Rightarrow> length unprocessed
           | Some n \<Rightarrow> if n > 0 then nat n else length unprocessed)"
  define sorted_all where "sorted_all = sort_key (mtime e) unprocessed"
  have whole: "take n sorted_all @ drop n sorted_all = sorted_all"
    by simp
  have srt: "sorted (map (mtime e) sorted_all)"
    unfolding sorted_all_def by (rule sorted_sort_key)
  have 0: "\<forall>f. f \<in> set unprocessed \<longleftrightarrow>
          (\<exists>d\<in>set (source_dirs p). path_exists e d \<and>
             (\<exists>(root, files)\<in>set (walk e d). \<exists>file\<in>set files.
                suffix ''.json'' file \<and>
                f = \<lparr>fi_path = path_join root file, fi_user_id = get_user_id_from_path d\<rparr>)) \<and>
          fi_path f \<notin> processed_files p"
    unfolding unprocessed_def all_unprocessed_iff json_file_under_def by simp
  have 1: "sorted (map (mtime e) (take n sorted_all))"
    using srt by (simp add: take_map [symmetric] sorted_wrt_take)
  have 2: "length (take n sorted_all)
             = (case max_files of None \<Rightarrow> length unprocessed
                | Some n \<Rightarrow> if n > 0 then min (nat n) (length unprocessed) else length unprocessed)"
    by (auto simp: n_def sorted_all_def min.commute split: option.splits)
  have 3: "\<forall>x\<in>set (take n sorted_all). \<forall>y\<in>set (drop n sorted_all). mtime e x \<le> mtime e y"
  proof -
    have "sorted (map (mtime e) (take n sorted_all) @ map (mtime e) (drop n sorted_all))"
      using srt by (simp add: map_append [symmetric] del: map_append)
    then show ?thesis
      by (auto simp: sorted_append)
  qed
  have 4: "\<exists>rest. mset (take n sorted_all @ rest) = mset unprocessed \<and>
          sorted (map (mtime e) (take n sorted_all @ rest)) \<and>
          (\<forall>t. filter (\<lambda>f. mtime e f = t) (take n sorted_all @ rest)
                 = filter (\<lambda>f. mtime e f = t) unprocessed) \<and>
          (\<forall>x\<in>set (take n sorted_all). \<forall>y\<in>set rest. mtime e x \<le> mtime e y)"
    apply (rule exI [of _ "drop n sorted_all"])
    unfolding whole
    using srt 3 by (simp add: sorted_all_def sort_key_stable)
  have 5: "length unprocessed = 150 \<and> max_files = Some 100 \<longrightarrow> length (take n sorted_all) = 100"
    by (auto simp: n_def sorted_all_def)
  have known: "(\<forall>f\<in>set unprocessed. getmtime e (fi_path f) = Inr (mtime e f)) \<and>
          (\<exists>selected. get_unprocessed_files e p max_files = Inr selected \<and>
             sorted (map (mtime e) selected) \<and>
             length selected
               = (case max_files of None \<Rightarrow> length unprocessed
                  | Some n \<Rightarrow> if n > 0 then min (nat n) (length unprocessed)
                              else length unprocessed) \<and>
             (\<exists>rest. mset (selected @ rest) = mset unprocessed \<and>
                sorted (map (mtime e) (selected @ rest)) \<and>
                (\<forall>t. filter (\<lambda>f. mtime e f = t) (selected @ rest)
                       = filter (\<lambda>f. mtime e f = t) unprocessed) \<and>
                (\<forall>x\<in>set selected. \<forall>y\<in>set rest. mtime e x \<le> mtime e y)) \<and>
             (length unprocessed = 150 \<and> max_files = Some 100 \<longrightarrow> length selected = 100))"
    if k: "mtimes_known e unprocessed"
  proof (intro conjI)
    show "\<forall>f\<in>set unprocessed. getmtime e (fi_path f) = Inr (mtime e f)"
      using k mtime_known by blast
    have sel: "get_unprocessed_files e p max_files = Inr (take n sorted_all)"
      using get_unprocessed_files_known [of e p max_files] k
      unfolding n_def sorted_all_def unprocessed_def by simp
    show "\<exists>selected. get_unprocessed_files e p max_files = Inr selected \<and>
             sorted (map (mtime e) selected) \<and>
             length selected
               = (case max_files of None \<Rightarrow> length unprocessed
                  | Some n \<Rightarrow> if n > 0 then min (nat n) (length unprocessed)
                              else length unprocessed) \<and>
             (\<exists>rest. mset (selected @ rest) = mset unprocessed \<and>
                sorted (map (mtime e) (selected @ rest)) \<and>
                (\<forall>t. filter (\<lambda>f. mtime e f = t) (selected @ rest)
                       = filter (\<lambda>f. mtime e f = t) unprocessed) \<and>
                (\<forall>x\<in>set selected. \<forall>y\<in>set rest. mtime e x \<le> mtime e y)) \<and>
             (length unprocessed = 150 \<and> max_files = Some 100 \<longrightarrow> length selected = 100)"
      apply (rule exI [of _ "take n sorted_all"])
      using sel 1 2 4 5 by (intro conjI) assumption+
  qed
  have unknown: "\<exists>ex. get_unprocessed_files e p max_files = Inl ex"
    if "\<not> mtimes_known e unprocessed"
    using that get_unprocessed_files_raises [of e p max_files] by (simp add: unprocessed_def)
  show ?thesis
    unfolding Let_def unprocessed_def [symmetric]
    apply (rule conjI)
     apply (rule 0)
    apply (rule conjI)
     apply (rule impI)
     apply (erule known)
    apply (rule impI)
    apply (erule unknown)
    done
qed


lemma insort_key_greatest:
  "\<forall>y\<in>set ys. f y < f x \<Longrightarrow> insort_key f x ys = ys @ [x]"
  for f :: "'a \<Rightarrow> real"
  by (induction ys) auto

lemma sort_key_decreasing:
  "sorted_wrt (\<lambda>a b. f b < f a) xs \<Longrightarrow> sort_key f xs = rev xs"
  for f :: "'a \<Rightarrow> real"
  by (induction xs) (simp_all add: insort_key_greatest)

lemma batch_file_json: "suffix ''.json'' (batch_file n)"
  unfolding batch_file_def by (intro suffix_appendI) simp

lemma batch_path: "path_join demo_dir (batch_file n) = fi_path (batch_info n)"
  by (simp add: path_join_def demo_dir_def batch_file_def batch_info_def suffix_to_prefix)

lemma batch_user: "get_user_id_from_path demo_dir = ''amy''"
  by (simp add: get_user_id_from_path_def demo_dir_def basename_def dirname_def)

lemma batch_unprocessed:
  "all_unprocessed batch_env (LogProcessor batch_env None empty_world) = map batch_info [0..<150]"
proof -
  have keep: "filter (suffix ''.json'') (map batch_file ns) = map batch_file ns" for ns
    by (induction ns) (simp_all add: batch_file_json)
  have info: "\<lparr>fi_path = path_join demo_dir (batch_file n),
               fi_user_id = get_user_id_from_path demo_dir\<rparr> = batch_info n" for n
    unfolding batch_path batch_user by (simp add: batch_info_def)
  show ?thesis
    unfolding all_unprocessed_def dir_unprocessed_def
    by (simp add: LogProcessor_def batch_env_def empty_world_def get_processed_files_def keep
        comp_def info del: upt.simps)
qed

lemma batch_mtime: "mtime batch_env (batch_info n) = - real (n + 27)"
  by (simp add: mtime_def batch_env_def batch_info_def batch_file_def)

lemma batch_mtimes_known: "mtimes_known batch_env files"
  by (simp add: mtimes_known_def batch_env_def list_all_iff)

lemma batch_sorted:
  "sort_key (mtime batch_env) (map batch_info [0..<150]) = rev (map batch_info [0..<150])"
proof (rule sort_key_decreasing)
  have "sorted_wrt (\<lambda>a b. mtime batch_env (batch_info b) < mtime batch_env (batch_info a)) [0..<150]"
    by (rule sorted_wrt_mono_rel [OF _ sorted_wrt_upt]) (simp add: batch_mtime)
  then show "sorted_wrt (\<lambda>a b. mtime batch_env b < mtime batch_env a) (map batch_info [0..<150])"
    by (simp add: sorted_wrt_map)
qed

lemma batch_selected:
  "get_unprocessed_files batch_env (LogProcessor batch_env None empty_world) (Some 100)
     = Inr (map batch_info (rev [50..<150]))"
proof -
  have "take 100 (rev (map batch_info [0..<150])) = map batch_info (rev [50..<150])"
    by (simp add: take_map take_rev rev_map del: upt.simps upt_rec_numeral)
  then show ?thesis
    using get_unprocessed_files_known
      [OF batch_mtimes_known, of "LogProcessor batch_env None empty_world" "Some 100"]
    by (simp add: batch_unprocessed batch_sorted del: upt.simps upt_rec_numeral)
qed

lemma batch_listing_unsorted: "\<not> sorted (map (mtime batch_env) (map batch_info [0..<150]))"
proof -
  have "[0..<150] = 0 # 1 # [2..<150]"
    by (simp add: upt_conv_Cons)
  then show ?thesis
    by (simp add: batch_mtime del: upt.simps)
qed

text \<open>The theorem at a directory with 150 files, listed from the most recent to the
  oldest, and the limit 100: the 100 oldest files are selected, the oldest first.\<close>

theorem discovery_batch_witness:
  "mtimes_known batch_env (all_unprocessed batch_env (LogProcessor batch_env None empty_world)) \<and>
   length (all_unprocessed batch_env (LogProcessor batch_env None empty_world)) = 150 \<and>
   \<not> sorted (map (mtime batch_env)
       (all_unprocessed batch_env (LogProcessor batch_env None empty_world))) \<and>
   get_unprocessed_files batch_env (LogProcessor batch_env None empty_world) (Some 100)
     = Inr (map batch_info (rev [50..<150])) \<and>
   sorted (map (mtime batch_env) (map batch_info (rev [50..<150]))) \<and>
   length (map batch_info (rev [50..<150])) = 100"
proof -
  have len: "length (all_unprocessed batch_env (LogProcessor batch_env None empty_world)) = 150"
    unfolding batch_unprocessed by simp
  have uns: "\<not> sorted (map (mtime batch_env)
       (all_unprocessed batch_env (LogProcessor batch_env None empty_world)))"
    unfolding batch_unprocessed by (rule batch_listing_unsorted)
  have "sorted (map (mtime batch_env) (map batch_info (rev [50..<150])))"
    using discovery_sorted_and_capped
      [of batch_env "LogProcessor batch_env None empty_world" "Some 100"]
      batch_mtimes_known [of "all_unprocessed batch_env (LogProcessor batch_env None empty_world)"]
    unfolding Let_def batch_selected by blast
  then show ?thesis
    using len uns batch_selected batch_mtimes_known
    by (simp del: upt.simps upt_rec_numeral)
qed

text \<open>
  Counterexample to claim C7 as written: a directory with two unprocessed \<open>.json\<close> files,
  one of them a dangling link. Reading its modification time raises, and discovery
  returns no list at all although both files are unprocessed.
\<close>

theorem dangling_link_stops_discovery:
  "all_unprocessed dangling_env (LogProcessor dangling_env None empty_world)
     = [\<lparr>fi_path = demo_good, fi_user_id = ''amy''\<rparr>, \<lparr>fi_path = demo_bad, fi_user_id = ''amy''\<rparr>] \<and>
   getmtime dangling_env demo_bad = Inl OSError \<and>
   get_unprocessed_files dangling_env (LogProcessor dangling_env None empty_world) (Some 100)
     = Inl OSError"
  by (simp add: get_unprocessed_files_def all_unprocessed_def dir_unprocessed_def
      LogProcessor_def dangling_env_def demo_env_def empty_world_def get_processed_files_def
      demo_dir_def demo_good_def demo_bad_def path_join_def get_user_id_from_path_def
      basename_def dirname_def suffix_to_prefix)
section \<open>Properties of a run\<close>

lemma process_file_produces: "fst (process_file e f w) \<noteq> None \<longleftrightarrow> produces e f"
proof (cases "load_json_file e (fi_path f)")
  case (Inl ex)
  then show ?thesis by (simp add: process_file_def produces_def)
next
  case (Inr v)
  then show ?thesis
    by (cases v) (simp_all add: process_file_def produces_def Let_def split: option.splits)
qed

lemma process_file_world:
  "snd (process_file e f w)
     = (if produces e f then w\<lparr>clock_reads := Suc (clock_reads w)\<rparr> else w)"
proof (cases "load_json_file e (fi_path f)")
  case (Inl ex)
  then show ?thesis by (simp add: process_file_def produces_def)
next
  case (Inr v)
  then show ?thesis
    by (cases v) (simp_all add: process_file_def produces_def Let_def split: option.splits)
qed

lemma process_file_clock_only:
  "clock_reads w = clock_reads w' \<Longrightarrow> fst (process_file e f w) = fst (process_file e f w')"
proof (cases "load_json_file e (fi_path f)")
  case (Inl ex)
  then show ?thesis by (simp add: process_file_def)
next
  case (Inr v)
  assume "clock_reads w = clock_reads w'"
  with Inr show ?thesis
    by (cases v) (simp_all add: process_file_def Let_def split: option.splits)
qed


lemma process_file_name:
  "fst (process_file e f w) = Some d \<Longrightarrow> doc_file_name d = basename (fi_path f)"
  by (auto simp: process_file_def Let_def split: sum.splits if_splits)



lemma process_loop_Cons:
  "process_loop e (f # fs) docs w =
     (if produces e f
      then process_loop e fs (docs @ [the (fst (process_file e f w))])
             (snd (mark_file_as_processed e (fi_path f)
                     (w\<lparr>clock_reads := Suc (clock_reads w)\<rparr>)))
      else process_loop e fs docs w)"
proof (cases "process_file e f w")
  case (Pair r w1)
  then have r: "fst (process_file e f w) = r" and w1: "snd (process_file e f w) = w1"
    by simp_all
  show ?thesis
  proof (cases r)
    case None
    with r have "\<not> produces e f"
      using process_file_produces [of e f w] by simp
    with Pair None w1 show ?thesis
      using process_file_world [of e f w] by simp
  next
    case (Some d)
    with r have p: "produces e f"
      using process_file_produces [of e f w] by simp
    with w1 have "w1 = w\<lparr>clock_reads := Suc (clock_reads w)\<rparr>"
      using process_file_world [of e f w] by simp
    with Pair Some p show ?thesis
      by (simp add: case_prod_unfold)
  qed
qed

lemma process_loop_ledger:
  "ledger_file (snd (process_loop e fs docs w))
     = ledger_after e (map fi_path (documented e fs)) (ledger_file w)"
proof (induction fs arbitrary: docs w)
  case Nil
  then show ?case by (simp add: documented_def ledger_after_Nil)
next
  case (Cons f fs)
  show ?case
    unfolding process_loop_Cons
    by (simp add: Cons.IH documented_def ledger_after_Cons mark_ledger)
qed

lemma process_loop_history:
  "history (snd (process_loop e fs docs w))
     = history w @ map LedgerAppend (filter (append_ok e) (map fi_path (documented e fs)))"
proof (induction fs arbitrary: docs w)
  case Nil
  then show ?case by (simp add: documented_def)
next
  case (Cons f fs)
  show ?case
    unfolding process_loop_Cons
    by (simp add: Cons.IH documented_def mark_history)
qed

lemma process_loop_clock:
  "clock_reads (snd (process_loop e fs docs w)) = clock_reads w + length (documented e fs)"
proof (induction fs arbitrary: docs w)
  case Nil
  then show ?case by (simp add: documented_def)
next
  case (Cons f fs)
  show ?case
    unfolding process_loop_Cons
    by (simp add: Cons.IH documented_def mark_clock)
qed

lemma process_loop_length:
  "length (fst (process_loop e fs docs w)) = length docs + length (documented e fs)"
proof (induction fs arbitrary: docs w)
  case Nil
  then show ?case by (simp add: documented_def)
next
  case (Cons f fs)
  show ?case
    unfolding process_loop_Cons
    by (simp add: Cons.IH documented_def)
qed

lemma process_loop_names:
  "map doc_file_name (fst (process_loop e fs docs w))
     = map doc_file_name docs @ map (\<lambda>f. basename (fi_path f)) (documented e fs)"
proof (induction fs arbitrary: docs w)
  case Nil
  then show ?case by (simp add: documented_def)
next
  case (Cons f fs)
  have "doc_file_name (the (fst (process_file e f w))) = basename (fi_path f)" if "produces e f"
  proof -
    from that obtain d where "fst (process_file e f w) = Some d"
      using process_file_produces [of e f w] by auto
    then show ?thesis
      using process_file_name [of e f w d] by simp
  qed
  then show ?case
    unfolding process_loop_Cons
    by (simp add: Cons.IH documented_def)
qed

lemma process_loop_clock_only:
  "clock_reads w = clock_reads w' \<Longrightarrow>
   fst (process_loop e fs docs w) = fst (process_loop e fs docs w')"
proof (induction fs arbitrary: docs w w')
  case Nil
  then show ?case by simp
next
  case (Cons f fs)
  have same: "fst (process_file e f w) = fst (process_file e f w')"
    using Cons.prems by (rule process_file_clock_only)
  have next_clock: "clock_reads (snd (mark_file_as_processed e (fi_path f)
                       (w\<lparr>clock_reads := Suc (clock_reads w)\<rparr>)))
      = clock_reads (snd (mark_file_as_processed e (fi_path f)
                       (w'\<lparr>clock_reads := Suc (clock_reads w')\<rparr>)))"
    using Cons.prems by (simp add: mark_clock)
  show ?case
    unfolding process_loop_Cons same
    using Cons.IH [OF next_clock] Cons.IH [OF Cons.prems] by simp
qed


lemma bulk_index_ledger: "ledger_file (snd (bulk_index e documents w)) = ledger_file w"
  unfolding bulk_index_def create_index_if_not_exists_def Let_def
  by (simp split: sum.splits bool.splits option.splits prod.splits)

lemma bulk_index_history:
  "history (snd (bulk_index e documents w))
     = history w
       @ (if documents = [] then []
          else IndexExists get_index_name
               # (if es_indices_exists e get_index_name = Inr False
                  then [IndexCreate get_index_name] else []))
       @ (if documents \<noteq> [] \<and> index_ensured e
          then [BulkWrite (map (\<lambda>doc. (get_index_name, doc)) documents)] else [])"
  unfolding bulk_index_def create_index_if_not_exists_def index_ensured_def Let_def
  by (simp split: sum.splits bool.splits option.splits prod.splits)

lemma ESClient_eq:
  "ESClient e w = (if client_built e then None else Some (projl (es_ping e)),
                   w\<lparr>history := history w @ [Ping]\<rparr>)"
  by (simp add: ESClient_def client_built_def Let_def split: sum.splits)

lemma run_documents_length: "length (run_documents e w) = length (run_documented e w)"
  by (simp add: run_documents_def run_documented_def process_loop_length)

lemma run_documents_Nil_iff: "run_documents e w = [] \<longleftrightarrow> run_documented e w = []"
  using run_documents_length [of e w] by (metis length_0_conv)

lemma process_logs_eq:
  "process_logs e w =
     (let w0 = w\<lparr>history := history w @ [Ping]\<rparr>;
          w1 = snd (process_loop e (run_selected e w) [] w0)
      in if run_documents e w \<noteq> [] then snd (bulk_index e (run_documents e w) w1) else w1)"
proof -
  let ?w0 = "w\<lparr>history := history w @ [Ping]\<rparr>"
  have docs: "fst (process_loop e fs [] ?w0) = fst (process_loop e fs [] w)" for fs
    by (rule process_loop_clock_only) simp
  show ?thesis
  proof (cases "client_built e")
    case False
    then show ?thesis
      by (simp add: process_logs_def ESClient_eq run_selected_def run_documents_def Let_def)
  next
    case True
    show ?thesis
    proof (cases "get_unprocessed_files e (LogProcessor e None w) (Some MAX_FILES_PER_BATCH)")
      case (Inl ex)
      with True show ?thesis
        by (simp add: process_logs_def ESClient_eq run_selected_def run_documents_def Let_def
            process_files_def selected_files_def)
    next
      case (Inr files)
      with True show ?thesis
        by (simp add: process_logs_def ESClient_eq run_selected_def run_documents_def Let_def
            process_files_def selected_files_def docs case_prod_unfold)
    qed
  qed
qed

lemma process_logs_ledger:
  "ledger_file (process_logs e w)
     = ledger_after e (map fi_path (run_documented e w)) (ledger_file w)"
  by (simp add: process_logs_eq Let_def bulk_index_ledger process_loop_ledger run_documented_def)

lemma process_logs_history:
  "history (process_logs e w)
     = history w @ [Ping]
       @ map LedgerAppend (filter (append_ok e) (map fi_path (run_documented e w)))
       @ (if run_documents e w = [] then []
          else IndexExists get_index_name
               # (if es_indices_exists e get_index_name = Inr False
                  then [IndexCreate get_index_name] else []))
       @ (if run_documents e w \<noteq> [] \<and> index_ensured e
          then [BulkWrite (map (\<lambda>doc. (get_index_name, doc)) (run_documents e w))] else [])"
  by (simp add: process_logs_eq Let_def bulk_index_history process_loop_history run_documented_def)




lemma process_logs_wellformed:
  "ledger_wellformed (ledger_file w) \<Longrightarrow> ledger_wellformed (ledger_file (process_logs e w))"
  by (simp add: process_logs_ledger wellformed_after)



lemma run_many_wellformed:
  "ledger_wellformed (ledger_file w) \<Longrightarrow> ledger_wellformed (ledger_file (run_many es w))"
  by (induction es arbitrary: w) (simp_all add: run_many_def process_logs_wellformed)






lemma demo_env_sel:
  "loads demo_env = demo_loads"
  "now_isoformat demo_env
     = (\<lambda>n. if n = 0 then ''2025-03-26T07:00:00'' else ''2025-03-26T07:50:00'')"
  "LOG_SOURCE_DIRS demo_env = [demo_dir]"
  "path_exists demo_env = (\<lambda>d. d = demo_dir)"
  "walk demo_env = (\<lambda>d. if d = demo_dir
      then [(demo_dir, [''a_m1.json'', ''b_m2.json'', ''notes.txt''])] else [])"
  "getmtime demo_env = (\<lambda>p. if p = demo_good then Inr 2 else Inr 1)"
  "read_text demo_env = (\<lambda>p. if p = demo_good then Some ''{}''
      else if p = demo_bad then Some ''garbled'' else None)"
  "ledger_open demo_env = None"
  "ledger_write demo_env = (\<lambda>p. None)"
  "es_ping demo_env = Inr True"
  "es_indices_exists demo_env = (\<lambda>i. Inr True)"
  "es_indices_create demo_env = (\<lambda>i. None)"
  "es_bulk demo_env = (\<lambda>actions. Inl ElasticsearchException)"
  by (simp_all add: demo_env_def)




lemma empty_world_sel:
  "ledger_file empty_world = None" "clock_reads empty_world = 0" "history empty_world = []"
  by (simp_all add: empty_world_def)


lemma LogProcessor_ledger:
  "ledger_file w = ledger_file w' \<Longrightarrow> LogProcessor e dirs w = LogProcessor e dirs w'"
  by (simp add: LogProcessor_def)

lemma run_selected_ledger:
  "ledger_file w = ledger_file w' \<Longrightarrow> run_selected e w = run_selected e w'"
  by (simp add: run_selected_def LogProcessor_ledger [of w w'])

lemma demo_unprocessed:
  "ledger_file w = None \<Longrightarrow>
   all_unprocessed demo_env (LogProcessor demo_env None w)
     = [\<lparr>fi_path = demo_good, fi_user_id = ''amy''\<rparr>, \<lparr>fi_path = demo_bad, fi_user_id = ''amy''\<rparr>]"
  by (simp add: all_unprocessed_def dir_unprocessed_def LogProcessor_def demo_env_sel
      get_processed_files_def demo_dir_def demo_good_def demo_bad_def path_join_def
      suffix_to_prefix get_user_id_from_path_def basename_def dirname_def)

lemma demo_discovery:
  "ledger_file w = None \<Longrightarrow>
   get_unprocessed_files demo_env (LogProcessor demo_env None w) (Some MAX_FILES_PER_BATCH)
     = Inr [\<lparr>fi_path = demo_bad, fi_user_id = ''amy''\<rparr>, \<lparr>fi_path = demo_good, fi_user_id = ''amy''\<rparr>]"
  by (simp add: get_unprocessed_files_def demo_unprocessed mtime_def demo_env_sel
      MAX_FILES_PER_BATCH_def demo_good_def demo_bad_def)

lemma demo_selected:
  "run_selected demo_env empty_world
     = [\<lparr>fi_path = demo_bad, fi_user_id = ''amy''\<rparr>, \<lparr>fi_path = demo_good, fi_user_id = ''amy''\<rparr>]"
  by (simp add: run_selected_def demo_discovery empty_world_sel client_built_def demo_env_sel
      selected_files_def)

lemma demo_load_good: "load_json_file demo_env demo_good = Inr (JDict [])"
  by (simp add: load_json_file_def demo_env_sel demo_loads_def)

lemma demo_load_bad: "load_json_file demo_env demo_bad = Inl JSONDecodeError"
  by (simp add: load_json_file_def demo_env_sel demo_loads_def demo_good_def demo_bad_def)

lemma demo_produces:
  "produces demo_env \<lparr>fi_path = demo_good, fi_user_id = u\<rparr>"
  "\<not> produces demo_env \<lparr>fi_path = demo_bad, fi_user_id = u\<rparr>"
  by (simp_all add: produces_def demo_load_good demo_load_bad)

lemma demo_conversation: "extract_conversation demo_loads (JDict []) = []"
  by (simp add: extract_conversation_def extract_conversation_body_def request_part_def
      response_part_def has_content_def py_and_def)

lemma demo_process_good:
  "fst (process_file demo_env \<lparr>fi_path = demo_good, fi_user_id = ''amy''\<rparr> w)
     = Some (if clock_reads w = 0 then demo_document else demo_document_later)"
proof -
  have "load_json_file demo_env (fi_path \<lparr>fi_path = demo_good, fi_user_id = ''amy''\<rparr>)
          = Inr (JDict [])"
    by (simp add: demo_load_good)
  then show ?thesis
    unfolding process_file_dict [OF \<open>load_json_file demo_env
        (fi_path \<lparr>fi_path = demo_good, fi_user_id = ''amy''\<rparr>) = Inr (JDict [])\<close>]
    by (simp add: demo_env_sel demo_conversation demo_document_def
        demo_document_later_def demo_good_def basename_def)
qed

lemma demo_documented:
  "run_documented demo_env empty_world = [\<lparr>fi_path = demo_good, fi_user_id = ''amy''\<rparr>]"
  by (simp add: run_documented_def documented_def demo_selected demo_produces)

lemma demo_documents: "run_documents demo_env empty_world = [demo_document]"
  unfolding run_documents_def demo_selected process_loop_Cons
  by (simp add: demo_produces demo_process_good empty_world_sel)


lemma demo_append_ok: "append_ok demo_env p"
  by (simp add: append_ok_def demo_env_sel)

lemma demo_index_ensured: "index_ensured demo_env"
  by (simp add: index_ensured_def demo_env_sel)

lemma demo_history:
  "history (process_logs demo_env empty_world)
     = [Ping, LedgerAppend demo_good, IndexExists ''copilot-chat-logs'',
        BulkWrite [(''copilot-chat-logs'', demo_document)]]"
  unfolding process_logs_history demo_documented demo_documents
  by (simp add: demo_append_ok demo_index_ensured empty_world_sel demo_env_sel
      get_index_name_def ES_INDEX_PREFIX_def)

lemma demo_ledger:
  "ledger_file (process_logs demo_env empty_world) = Some (demo_good @ [CHR 0x0A])"
  unfolding process_logs_ledger demo_documented
  by (simp add: ledger_after_all_ok demo_append_ok empty_world_sel ledger_text_def)

lemma demo_processed:
  "get_processed_files (ledger_file (process_logs demo_env empty_world)) = {demo_good}"
  unfolding demo_ledger
  by (simp add: get_processed_files_def demo_good_def py_strip_def py_isspace_def)

lemma demo_second_discovery:
  "get_unprocessed_files demo_env (LogProcessor demo_env None (process_logs demo_env empty_world))
       (Some MAX_FILES_PER_BATCH)
     = Inr [\<lparr>fi_path = demo_bad, fi_user_id = ''amy''\<rparr>]"
proof -
  have "all_unprocessed demo_env (LogProcessor demo_env None (process_logs demo_env empty_world))
          = [\<lparr>fi_path = demo_bad, fi_user_id = ''amy''\<rparr>]"
    unfolding all_unprocessed_def dir_unprocessed_def LogProcessor_def
    by (simp add: demo_processed demo_env_sel demo_dir_def demo_good_def demo_bad_def
        path_join_def suffix_to_prefix get_user_id_from_path_def basename_def dirname_def)
  then show ?thesis
    by (simp add: get_unprocessed_files_def demo_env_sel MAX_FILES_PER_BATCH_def)
qed

lemma demo_second_selected:
  "run_selected demo_env (process_logs demo_env empty_world)
     = [\<lparr>fi_path = demo_bad, fi_user_id = ''amy''\<rparr>]"
  by (simp add: run_selected_def demo_second_discovery client_built_def selected_files_def
      demo_env_sel)

lemma demo_second_documented: "run_documented demo_env (process_logs demo_env empty_world) = []"
  by (simp add: run_documented_def documented_def demo_second_selected demo_produces)






















section \<open>The ledger across runs\<close>




section \<open>What a run appends, and when\<close>














text \<open>
  Claim C2, as amended. A run first attempts the client's connection (\<open>ESClient()\<close> pings
  the cluster). Then the ledger appends for all files whose task produced a document
  and whose append did not raise are performed, in the extraction loop; after them come
  the index check, made exactly when the run produced at least one document, and the
  index creation, made when the check answers that the index is missing; and last the
  single bulk write, which carries all the run's documents, each addressed to the fixed
  index, and is made exactly when the run produced at least one document and the index
  exists or was created. The run produces one document for each file whose task produced
  one.
\<close>

theorem ledger_appends_precede_bulk_write:
  "history (process_logs e w)
     = history w @ [Ping]
       @ map LedgerAppend (filter (\<lambda>p. ledger_open e = None \<and> ledger_write e p = None)
                             (map fi_path (run_documented e w)))
       @ (if run_documents e w = [] then []
          else IndexExists get_index_name
               # (if es_indices_exists e get_index_name = Inr False
                  then [IndexCreate get_index_name] else []))
       @ (if run_documents e w \<noteq> [] \<and> index_ensured e
          then [BulkWrite (map (\<lambda>doc. (get_index_name, doc)) (run_documents e w))] else []) \<and>
   length (run_documents e w) = length (run_documented e w) \<and>
   map doc_file_name (run_documents e w)
     = map (\<lambda>f. basename (fi_path f)) (run_documented e w)"
proof -
  have ok: "(\<lambda>p. ledger_open e = None \<and> ledger_write e p = None) = append_ok e"
    by (rule ext) (simp add: append_ok_def)
  have "map doc_file_name (run_documents e w)
     = map (\<lambda>f. basename (fi_path f)) (run_documented e w)"
    by (simp add: run_documents_def run_documented_def process_loop_names)
  then show ?thesis
    unfolding ok using process_logs_history [of e w] run_documents_length [of e w]
    by (intro conjI) assumption+
qed

text \<open>The theorem at the first run over the example directory (the ping, one append,
  then the sink) and at the second run (the ping, no document, nothing else).\<close>

theorem appends_precede_bulk_witness:
  "run_documents demo_env (process_logs demo_env empty_world) = [] \<and>
   history (process_logs demo_env (process_logs demo_env empty_world))
     = history (process_logs demo_env empty_world) @ [Ping] \<and>
   run_documents demo_env empty_world = [demo_document] \<and>
   es_indices_exists demo_env get_index_name = Inr True \<and> index_ensured demo_env \<and>
   history (process_logs demo_env empty_world)
     = [Ping, LedgerAppend demo_good, IndexExists get_index_name,
        BulkWrite [(get_index_name, demo_document)]]"
proof -
  have none: "run_documents demo_env (process_logs demo_env empty_world) = []"
    by (simp add: run_documents_Nil_iff demo_second_documented)
  from ledger_appends_precede_bulk_write [of demo_env "process_logs demo_env empty_world"]
  have 1: "history (process_logs demo_env (process_logs demo_env empty_world))
     = history (process_logs demo_env empty_world) @ [Ping]"
    by (simp add: none demo_second_documented)
  from ledger_appends_precede_bulk_write [of demo_env empty_world]
  have 2: "history (process_logs demo_env empty_world)
     = [Ping, LedgerAppend demo_good, IndexExists get_index_name,
        BulkWrite [(get_index_name, demo_document)]]"
    by (simp add: demo_documented demo_documents empty_world_sel demo_env_sel
        demo_index_ensured)
  show ?thesis
    using none 1 2 demo_documents demo_index_ensured by (simp add: demo_env_sel)
qed

text \<open>
  Claim C2 as stated fails: in the first run over the example directory the append of
  \<open>a_m1.json\<close> comes before the index check and the bulk write, which is the last event.
\<close>

theorem append_before_bulk_write:
  "history (process_logs demo_env empty_world)
     = [Ping, LedgerAppend demo_good, IndexExists ''copilot-chat-logs'',
        BulkWrite [(''copilot-chat-logs'', demo_document)]]"
  by (rule demo_history)

section \<open>The processor's set and the index name\<close>




text \<open>
  Claim C9. Index creation and bulk writes use the fixed name \<open>copilot-chat-logs\<close>;
  \<open>search_by_user\<close> searches the expression \<open>copilot-chat-logs-*\<close>, which is a different
  string, does not match the fixed name, and matches date-suffixed names instead.
\<close>

theorem index_name_and_search_pattern_differ:
  "get_index_name = ''copilot-chat-logs'' \<and> search_index = ''copilot-chat-logs-*'' \<and>
   search_index \<noteq> get_index_name \<and> \<not> wildcard_match search_index get_index_name \<and>
   wildcard_match search_index ''copilot-chat-logs-2025-03''"
  by (simp add: get_index_name_def search_index_def ES_INDEX_PREFIX_def)

end
